theory Spec2Isabelle
  imports Complex_Main "HOL-Library.Word"
begin

section \<open>Numbers, randomness and positions\<close>

text \<open>
  The engine computes with JavaScript numbers.  They are modelled as reals: every
  comparison, sum, product and quotient of the source is the same operation on
  \<^typ>\<open>real\<close>, and rounding of doubles is left out.  A read of \<open>undefined\<close>
  (and the \<open>NaN\<close> it turns into) is modelled explicitly where the source can
  produce one.

  \<open>Math.random()\<close> is modelled by a fixed sequence of draws \<open>rand\<close> and a
  cursor into it: the \<open>k\<close>-th call of a run returns \<open>rand k\<close>.  The browser
  guarantees \<open>0 \<le> rand k < 1\<close>; theorems that need it say so.
\<close>

type_synonym rng = "nat \<Rightarrow> real"

definition unit_draws :: "rng \<Rightarrow> bool" where
  "unit_draws rand = (\<forall>k. 0 \<le> rand k \<and> rand k < 1)"

text \<open>A seed position \<open>{x, y, z}\<close>.\<close>

record position =
  pos_x :: real
  pos_y :: real
  pos_z :: real

definition planar :: "position \<Rightarrow> real \<times> real" where
  "planar p = (pos_x p, pos_y p)"


section \<open>Image sampler (\<open>createPointCloud\<close>, sampling loops)\<close>

text \<open>
  \<open>tree-engine.js\<close> lines 498--543 and \<open>buildpage-engine.js\<close> lines 214--238
  are the same pair of loops; they differ only in the depth given to a seed.
  The canvas is square (\<open>CONFIG.*.size\<close>), the stride is
  \<open>CONFIG.*.samplingDensity\<close>.
\<close>

datatype variant = TreeVariant | LogoVariant

record sampler_config =
  cfg_size :: nat
  cfg_depthRange :: real
  cfg_samplingDensity :: nat

text \<open>\<open>imageData.data[i]\<close>: a byte, or \<open>undefined\<close> beyond the array.\<close>

definition readByte :: "8 word list \<Rightarrow> nat \<Rightarrow> real option" where
  "readByte d i = (if i < length d then Some (real (unat (d ! i))) else None)"

text \<open>\<open>(r + g + b) / 3\<close>; \<open>None\<close> stands for \<open>NaN\<close>.\<close>

definition brightness :: "real option \<Rightarrow> real option \<Rightarrow> real option \<Rightarrow> real option" where
  "brightness r g b =
     (case r of None \<Rightarrow> None | Some r' \<Rightarrow>
      (case g of None \<Rightarrow> None | Some g' \<Rightarrow>
       (case b of None \<Rightarrow> None | Some b' \<Rightarrow> Some ((r' + g' + b') / 3))))"

text \<open>\<open>alpha > 128 && brightness < 128\<close>; a comparison with \<open>undefined\<close> or \<open>NaN\<close> is false.\<close>

definition includePixel :: "real option \<Rightarrow> real option \<Rightarrow> bool" where
  "includePixel alpha br =
     (case alpha of None \<Rightarrow> False | Some a \<Rightarrow>
      (case br of None \<Rightarrow> False | Some v \<Rightarrow> a > 128 \<and> v < 128))"

text \<open>The tree's depth multiplier, chosen from \<open>normalizedY = (posY + 512) / 1024\<close>.\<close>

definition depthMultiplier :: "real \<Rightarrow> real" where
  "depthMultiplier posY =
     (let normalizedY = (posY + 512) / 1024
      in if normalizedY > 0.5 then 0.12
         else if normalizedY > 0.3 then 0.18
         else if normalizedY > 0.15 then 0.4
         else 1.0)"

text \<open>\<open>posZ\<close> from one draw \<open>r\<close> of \<open>Math.random()\<close>.\<close>

definition posZ :: "variant \<Rightarrow> sampler_config \<Rightarrow> real \<Rightarrow> real \<Rightarrow> real" where
  "posZ v cfg posY r =
     (case v of
        TreeVariant \<Rightarrow> (r - 0.5) * cfg_depthRange cfg * depthMultiplier posY
      | LogoVariant \<Rightarrow> (r - 0.5) * cfg_depthRange cfg)"

text \<open>The planar coordinates of the seed of pixel \<open>(x, y)\<close>.\<close>

definition posX_of :: "sampler_config \<Rightarrow> nat \<Rightarrow> real" where
  "posX_of cfg x = real x - real (cfg_size cfg) / 2"

definition posY_of :: "sampler_config \<Rightarrow> nat \<Rightarrow> real" where
  "posY_of cfg y = - (real y - real (cfg_size cfg) / 2)"

text \<open>The four bytes of pixel \<open>(x, y)\<close> at \<open>i = (y * canvas.width + x) * 4\<close>.\<close>

definition pixelIndex :: "sampler_config \<Rightarrow> nat \<Rightarrow> nat \<Rightarrow> nat" where
  "pixelIndex cfg y x = (y * cfg_size cfg + x) * 4"

definition pixelAlpha :: "sampler_config \<Rightarrow> 8 word list \<Rightarrow> nat \<Rightarrow> nat \<Rightarrow> real option" where
  "pixelAlpha cfg d y x = readByte d (pixelIndex cfg y x + 3)"

definition pixelBrightness :: "sampler_config \<Rightarrow> 8 word list \<Rightarrow> nat \<Rightarrow> nat \<Rightarrow> real option" where
  "pixelBrightness cfg d y x =
     (let i = pixelIndex cfg y x;
          r = readByte d i;
          g = readByte d (i + 1);
          b = readByte d (i + 2)
      in brightness r g b)"

definition pixelIncluded :: "sampler_config \<Rightarrow> 8 word list \<Rightarrow> nat \<Rightarrow> nat \<Rightarrow> bool" where
  "pixelIncluded cfg d y x = includePixel (pixelAlpha cfg d y x) (pixelBrightness cfg d y x)"

text \<open>
  The body of the inner loop.  The state is the array \<open>positions\<close> and the
  number of draws made so far.
\<close>

definition samplePixel ::
  "variant \<Rightarrow> sampler_config \<Rightarrow> 8 word list \<Rightarrow> rng \<Rightarrow> nat \<Rightarrow> nat
     \<Rightarrow> position list \<times> nat \<Rightarrow> position list \<times> nat" where
  "samplePixel v cfg d rand y x st =
     (if pixelIncluded cfg d y x then
        (let posX = posX_of cfg x;
             posY = posY_of cfg y;
             posZ' = posZ v cfg posY (rand (snd st))
         in (fst st @ [\<lparr>pos_x = posX, pos_y = posY, pos_z = posZ'\<rparr>], Suc (snd st)))
      else st)"

text \<open>
  \<open>for (let x = 0; x < canvas.width; x += samplingStep)\<close>.  With a stride of 0 the
  source never leaves the loop, so the loops are partial: \<open>None\<close> is a run that
  does not return.
\<close>

partial_function (option) sampleCols ::
  "variant \<Rightarrow> sampler_config \<Rightarrow> 8 word list \<Rightarrow> rng \<Rightarrow> nat \<Rightarrow> nat
     \<Rightarrow> position list \<times> nat \<Rightarrow> (position list \<times> nat) option" where
  "sampleCols v cfg d rand y x st =
     (if x < cfg_size cfg
      then sampleCols v cfg d rand y (x + cfg_samplingDensity cfg) (samplePixel v cfg d rand y x st)
      else Some st)"

partial_function (option) sampleRows ::
  "variant \<Rightarrow> sampler_config \<Rightarrow> 8 word list \<Rightarrow> rng \<Rightarrow> nat
     \<Rightarrow> position list \<times> nat \<Rightarrow> (position list \<times> nat) option" where
  "sampleRows v cfg d rand y st =
     (if y < cfg_size cfg
      then Option.bind (sampleCols v cfg d rand y 0 st)
             (\<lambda>st'. sampleRows v cfg d rand (y + cfg_samplingDensity cfg) st')
      else Some st)"

text \<open>The sampler: \<open>positions\<close> starts empty, the draws start at cursor \<open>k\<close>.\<close>

definition samplePositions ::
  "variant \<Rightarrow> sampler_config \<Rightarrow> 8 word list \<Rightarrow> rng \<Rightarrow> nat \<Rightarrow> (position list \<times> nat) option" where
  "samplePositions v cfg d rand k = sampleRows v cfg d rand 0 ([], k)"

text \<open>The pixels the loops visit: both coordinates are multiples of the stride.\<close>

definition visited :: "sampler_config \<Rightarrow> nat \<Rightarrow> nat \<Rightarrow> bool" where
  "visited cfg y x =
     (x < cfg_size cfg \<and> y < cfg_size cfg \<and>
      cfg_samplingDensity cfg dvd x \<and> cfg_samplingDensity cfg dvd y)"

definition seedXY :: "sampler_config \<Rightarrow> nat \<Rightarrow> nat \<Rightarrow> real \<times> real" where
  "seedXY cfg y x = (posX_of cfg x, posY_of cfg y)"

text \<open>
  The loops in closed form, for the proofs: the multiples of the stride below \<open>n\<close>
  from the \<open>m\<close>-th on, the included pixels in scan order, and the state the loops
  have built after a list of included pixels.
\<close>

definition strideMultiples :: "nat \<Rightarrow> nat \<Rightarrow> nat \<Rightarrow> nat list" where
  "strideMultiples s n m = map (\<lambda>i. i * s) [m..<(n + s - 1) div s]"

definition rowPixels :: "sampler_config \<Rightarrow> 8 word list \<Rightarrow> nat \<Rightarrow> nat \<Rightarrow> (nat \<times> nat) list" where
  "rowPixels cfg d y n =
     map (Pair y) (filter (pixelIncluded cfg d y)
        (strideMultiples (cfg_samplingDensity cfg) (cfg_size cfg) n))"

definition includedPixels :: "sampler_config \<Rightarrow> 8 word list \<Rightarrow> nat \<Rightarrow> (nat \<times> nat) list" where
  "includedPixels cfg d m =
     concat (map (\<lambda>y. rowPixels cfg d y 0)
        (strideMultiples (cfg_samplingDensity cfg) (cfg_size cfg) m))"

definition mkSeed :: "variant \<Rightarrow> sampler_config \<Rightarrow> rng \<Rightarrow> nat \<times> (nat \<times> nat) \<Rightarrow> position" where
  "mkSeed v cfg rand jp =
     (case jp of (j, (y, x)) \<Rightarrow>
        \<lparr>pos_x = posX_of cfg x, pos_y = posY_of cfg y,
         pos_z = posZ v cfg (posY_of cfg y) (rand j)\<rparr>)"

definition seedState ::
  "variant \<Rightarrow> sampler_config \<Rightarrow> rng \<Rightarrow> nat \<Rightarrow> (nat \<times> nat) list \<Rightarrow> position list \<times> nat" where
  "seedState v cfg rand k pts = (map (mkSeed v cfg rand) (enumerate k pts), k + length pts)"

text \<open>Concrete inputs: the tree's configuration, two sequences of draws and small images.\<close>

definition treeSamplerConfig :: sampler_config where
  "treeSamplerConfig = \<lparr>cfg_size = 1024, cfg_depthRange = 25, cfg_samplingDensity = 1\<rparr>"

definition zeroDraws :: rng where
  "zeroDraws k = 0"

definition halfDraws :: rng where
  "halfDraws k = 0.5"

text \<open>A 1024 x 1024 canvas, white and opaque but for one black pixel at the top left.\<close>

definition blackCorner :: "8 word list" where
  "blackCorner = [0, 0, 0, 255] @ replicate (4 * 1024 * 1024 - 4) 255"

text \<open>A 2 x 2 canvas: black, white / transparent black, grey 128; and its configuration.\<close>

definition smallConfig :: sampler_config where
  "smallConfig = \<lparr>cfg_size = 2, cfg_depthRange = 25, cfg_samplingDensity = 1\<rparr>"

definition smallImage :: "8 word list" where
  "smallImage = [0, 0, 0, 255,  255, 255, 255, 255,  0, 0, 0, 128,  128, 128, 128, 255]"

text \<open>
  A 2 x 2 canvas in colours: cyan (mean 170), red (mean 85) / black, black at alpha 128.
\<close>

definition colourImage :: "8 word list" where
  "colourImage = [0, 255, 255, 255,  255, 0, 0, 255,  0, 0, 0, 255,  0, 0, 0, 128]"

section \<open>Structure extender (\<open>extendRoots\<close>, \<open>createRootBranch\<close>, \<open>extendBranches\<close>)\<close>

text \<open>\<open>a || b\<close> on numbers: \<open>b\<close> when \<open>a\<close> is 0 (or \<open>NaN\<close>), else \<open>a\<close>.\<close>

definition js_or :: "real \<Rightarrow> real \<Rightarrow> real" where
  "js_or a b = (if a = 0 then b else a)"

text \<open>
  \<open>extendBranches\<close>, line 435:
  \<open>(particle.x - centerX) / Math.abs(particle.x - centerX || 1) * 0.3\<close>.
  The subtraction binds tighter than \<open>||\<close>.
\<close>

definition outwardBiasDenominator :: "real \<Rightarrow> real \<Rightarrow> real" where
  "outwardBiasDenominator particle_x centerX = \<bar>js_or (particle_x - centerX) 1\<bar>"

definition outwardBiasX :: "real \<Rightarrow> real \<Rightarrow> real" where
  "outwardBiasX particle_x centerX =
     (particle_x - centerX) / outwardBiasDenominator particle_x centerX * 0.3"

text \<open>An exception thrown by the extender and caught by \<open>createPointCloud\<close>.\<close>

datatype js_error = TypeError

text \<open>
  \<open>xs.filter(() => Math.random() < q)\<close>: one draw per element, in order.
\<close>

fun randomFilter :: "rng \<Rightarrow> real \<Rightarrow> 'a list \<Rightarrow> nat \<Rightarrow> 'a list \<times> nat" where
  "randomFilter rand q [] k = ([], k)"
| "randomFilter rand q (x # xs) k =
     (let r = randomFilter rand q xs (Suc k)
      in (if rand k < q then x # fst r else fst r, snd r))"


subsection \<open>Root extension\<close>

text \<open>
  The state threaded through \<open>createRootBranch\<close>: the shared \<open>particleArray\<close> and the
  number of draws.  \<open>callDepths\<close> is not a variable of the source: it records the
  \<open>depth\<close> argument of every invocation of \<open>createRootBranch\<close>, so that the bound on the
  recursion depth can be stated.
\<close>

record root_state =
  particleArray :: "position list"
  draws :: nat
  callDepths :: "nat list"

text \<open>The running angles and position of a branch (lines 285--291).\<close>

record walker =
  angleX :: real
  angleY :: real
  angleZ :: real
  currentX :: real
  currentY :: real
  currentZ :: real

text \<open>The inner loop (lines 312--322): one particle of the ring, two draws.\<close>

definition ringBody :: "rng \<Rightarrow> walker \<Rightarrow> real \<Rightarrow> nat \<Rightarrow> root_state \<Rightarrow> root_state" where
  "ringBody rand w currentThickness p s =
     (let spreadRadius = currentThickness * 1.5;
          xSpread = (rand (draws s) - 0.5) * spreadRadius;
          zSpread = (rand (draws s + 1) - 0.5) * spreadRadius
      in s\<lparr>particleArray := particleArray s @
              [\<lparr>pos_x = currentX w + xSpread, pos_y = currentY w, pos_z = currentZ w + zSpread\<rparr>],
            draws := draws s + 2\<rparr>)"

text \<open>One segment (lines 295--322): three draws bend the branch, then the ring is emitted.\<close>

definition particlesInRing :: "real \<Rightarrow> nat" where
  "particlesInRing currentThickness = nat (max 1 \<lfloor>currentThickness * 4\<rfloor>)"

definition segmentBody ::
  "rng \<Rightarrow> real \<Rightarrow> nat \<Rightarrow> nat \<Rightarrow> walker \<times> root_state \<Rightarrow> walker \<times> root_state" where
  "segmentBody rand thickness segments i ws =
     (let w = fst ws; s = snd ws;
          progress = real i / real segments;
          aX = angleX w + (rand (draws s) - 0.5) * 0.25;
          aY = angleY w + (rand (draws s + 1) - 0.5) * 0.15;
          aZ = angleZ w + (rand (draws s + 2) - 0.5) * 0.25;
          w' = \<lparr>angleX = aX, angleY = aY, angleZ = aZ,
                currentX = currentX w + aX * 3.5,
                currentY = currentY w + aY * 3,
                currentZ = currentZ w + aZ * 3.5\<rparr>;
          currentThickness = thickness * (1 - progress * 0.5)
      in (w', fold (ringBody rand w' currentThickness) [0..<particlesInRing currentThickness]
                (s\<lparr>draws := draws s + 3\<rparr>)))"

text \<open>Lines 281--323: the length, the direction and the segments of one branch.\<close>

definition drawBranch ::
  "rng \<Rightarrow> position \<Rightarrow> real \<Rightarrow> real \<Rightarrow> real \<Rightarrow> root_state \<Rightarrow> walker \<times> root_state" where
  "drawBranch rand startPos thickness biasX biasZ s =
     (let branchLength = 50 + rand (draws s) * 70;
          segments = nat \<lfloor>branchLength / 4\<rfloor>;
          w = \<lparr>angleX = biasX * 1.2 + (rand (draws s + 1) - 0.5) * 0.4,
               angleY = - 0.6 - rand (draws s + 2) * 0.3,
               angleZ = biasZ * 1.2 + (rand (draws s + 3) - 0.5) * 0.4,
               currentX = pos_x startPos, currentY = pos_y startPos, currentZ = pos_z startPos\<rparr>
      in fold (segmentBody rand thickness segments) [0..<segments] (w, s\<lparr>draws := draws s + 4\<rparr>))"

text \<open>Lines 331--339: the start and the bias of a sub-branch, four draws.\<close>

definition subBranchStart :: "rng \<Rightarrow> walker \<Rightarrow> nat \<Rightarrow> position" where
  "subBranchStart rand w k =
     \<lparr>pos_x = currentX w + (rand k - 0.5) * 15, pos_y = currentY w,
      pos_z = currentZ w + (rand (k + 1) - 0.5) * 15\<rparr>"

text \<open>
  \<open>createRootBranch\<close>.  In \<open>depth < 1 && Math.random() < 0.35 && particleArray.length <
  80000\<close> the draw is made only when \<open>depth < 1\<close>.
\<close>

function createRootBranch ::
  "rng \<Rightarrow> position \<Rightarrow> nat \<Rightarrow> real \<Rightarrow> real \<Rightarrow> real \<Rightarrow> root_state \<Rightarrow> root_state" where
  "createRootBranch rand startPos depth thickness biasX biasZ s0 =
     (let s = s0\<lparr>callDepths := callDepths s0 @ [depth]\<rparr>
      in if depth \<ge> 2 \<or> thickness < 0.2 \<or> length (particleArray s) > 100000 then s
         else
           (let ws = drawBranch rand startPos thickness biasX biasZ s;
                w = fst ws; s1 = snd ws
            in if depth < 1 then
                 (if rand (draws s1) < 0.35 \<and> length (particleArray s1) < 80000 then
                    (let numBranches = (if rand (draws s1 + 1) < 0.7 then 2 else 3 :: nat)
                     in fold (\<lambda>b s'.
                           createRootBranch rand (subBranchStart rand w (draws s'))
                             (depth + 1) (thickness * 0.6)
                             (angleX w + (rand (draws s' + 2) - 0.5) * 0.5)
                             (angleZ w + (rand (draws s' + 3) - 0.5) * 0.5)
                             (s'\<lparr>draws := draws s' + 4\<rparr>))
                          [0..<numBranches] (s1\<lparr>draws := draws s1 + 2\<rparr>))
                  else s1\<lparr>draws := draws s1 + 1\<rparr>)
               else s1))"
  by pat_completeness auto
termination
  by (relation "measure (\<lambda>(rand, startPos, depth, thickness, biasX, biasZ, s0). 2 - depth)") auto

declare createRootBranch.simps [simp del]

text \<open>
  \<open>extendRoots\<close>.  On an empty array \<open>sortedByY[0]\<close> is \<open>undefined\<close> and reading its
  \<open>y\<close> throws; otherwise the index \<open>floor (n * 0.15)\<close> is within the array.  The sort is
  used for the \<open>y\<close> of one element only.
\<close>

definition extendRoots :: "rng \<Rightarrow> nat \<Rightarrow> position list \<Rightarrow> js_error + root_state" where
  "extendRoots rand k positions =
     (if positions = [] then Inl TypeError
      else
        (let sortedByY = sort_key pos_y positions;
             bottomThreshold = pos_y (sortedByY ! nat \<lfloor>real (length sortedByY) * 0.15\<rfloor>);
             rootBaseParticles = filter (\<lambda>p. pos_y p \<le> bottomThreshold) positions;
             centerX = sum_list (map pos_x rootBaseParticles) / real (length rootBaseParticles);
             centerZ = sum_list (map pos_z rootBaseParticles) / real (length rootBaseParticles);
             rootStarts = randomFilter rand 0.20 rootBaseParticles k;
             maxRootStarts = 50;
             limitedRootStarts = take maxRootStarts (fst rootStarts)
         in Inr (fold (\<lambda>startParticle s.
                    (let outwardX = pos_x startParticle - centerX;
                         outwardZ = pos_z startParticle - centerZ;
                         outwardMag = js_or (sqrt (outwardX * outwardX + outwardZ * outwardZ)) 1
                     in createRootBranch rand startParticle 0 1.0
                          (outwardX / outwardMag) (outwardZ / outwardMag) s))
                  limitedRootStarts
                  \<lparr>particleArray = [], draws = snd rootStarts, callDepths = []\<rparr>)))"


subsection \<open>Branch extension\<close>

text \<open>The neighbours of a candidate tip within 15 units (lines 387--394).\<close>

definition nearbyOf :: "position list \<Rightarrow> position \<Rightarrow> position list" where
  "nearbyOf middleParticles particle =
     filter (\<lambda>p.
        (let dist = sqrt ((pos_x p - pos_x particle)\<^sup>2 + (pos_y p - pos_y particle)\<^sup>2
                           + (pos_z p - pos_z particle)\<^sup>2)
         in dist > 0 \<and> dist < 15))
       middleParticles"

record branch_tip =
  tipParticle :: position
  directionX :: real
  directionY :: real
  directionZ :: real

text \<open>
  The direction of a tip (lines 396--418): the mean of the vectors from its neighbours,
  normalised; \<open>None\<close> is the \<open>null\<close> that is filtered out.
\<close>

definition branchTipOf :: "position list \<Rightarrow> position \<Rightarrow> branch_tip option" where
  "branchTipOf middleParticles particle =
     (let nearby = nearbyOf middleParticles particle
      in if length nearby = 0 then None
         else
           (let avgDx = sum_list (map (\<lambda>p. pos_x particle - pos_x p) nearby) / real (length nearby);
                avgDy = sum_list (map (\<lambda>p. pos_y particle - pos_y p) nearby) / real (length nearby);
                avgDz = sum_list (map (\<lambda>p. pos_z particle - pos_z p) nearby) / real (length nearby);
                magnitude = sqrt (avgDx * avgDx + avgDy * avgDy + avgDz * avgDz)
            in if magnitude = 0 then None
               else Some \<lparr>tipParticle = particle,
                          directionX = avgDx / magnitude,
                          directionY = avgDy / magnitude,
                          directionZ = avgDz / magnitude\<rparr>))"

text \<open>
  One step of the walk along a tip (lines 439--468).  The state is the running position,
  the array \<open>newParticles\<close> and the number of draws; a step makes four draws and, when it
  emits its one particle, three more.
\<close>

type_synonym tip_state = "(real \<times> real \<times> real) \<times> position list \<times> nat"

definition tipSegment ::
  "rng \<Rightarrow> branch_tip \<Rightarrow> real \<Rightarrow> real \<Rightarrow> nat \<Rightarrow> nat \<Rightarrow> tip_state \<Rightarrow> tip_state" where
  "tipSegment rand tip biasX biasZ extensionSegments i cs =
     (let c = fst cs; arr = fst (snd cs); k = snd (snd cs);
          progress = real i / real extensionSegments;
          curveX = (rand k - 0.5) * 0.4;
          curveY = (rand (k + 1) - 0.5) * 0.3;
          curveZ = (rand (k + 2) - 0.5) * 0.4;
          segmentLength = 3;
          cX = fst c + (directionX tip + biasX) * segmentLength + curveX;
          cY = fst (snd c) + (directionY tip - 0.1) * segmentLength + curveY;
          cZ = snd (snd c) + (directionZ tip + biasZ) * segmentLength + curveZ;
          density = (1 - progress)\<^sup>2 * 0.4
      in if rand (k + 3) < density then
           (let spread = (1 - progress) * 0.5
            in ((cX, cY, cZ),
                arr @ [\<lparr>pos_x = cX + (rand (k + 4) - 0.5) * spread,
                         pos_y = cY + (rand (k + 5) - 0.5) * spread,
                         pos_z = cZ + (rand (k + 6) - 0.5) * spread * 0.3\<rparr>],
                k + 7))
         else ((cX, cY, cZ), arr, k + 4))"

text \<open>The extension of one sampled tip (lines 425--469): \<open>for (i = 1; i <= extensionSegments; i++)\<close>.\<close>

definition extendTip :: "rng \<Rightarrow> real \<Rightarrow> branch_tip \<Rightarrow> position list \<times> nat \<Rightarrow> position list \<times> nat" where
  "extendTip rand centerX tip s =
     (let particle = tipParticle tip; k = snd s;
          extensionLength = 30 + rand k * 30;
          extensionSegments = nat \<lfloor>extensionLength / 3\<rfloor>;
          biasX = outwardBiasX (pos_x particle) centerX;
          biasZ = (rand (k + 1) - 0.5) * 0.2
      in snd (fold (tipSegment rand tip biasX biasZ extensionSegments)
                [1..<extensionSegments + 1]
                ((pos_x particle, pos_y particle, pos_z particle), fst s, k + 2)))"

text \<open>
  \<open>extendBranches\<close>.  It has no call of itself: three passes over arrays and the two
  nested loops of \<open>extendTip\<close>.  The field \<open>angle\<close> of \<open>particlesWithDistance\<close> is never
  read and is left out.  The sort by descending distance is stable, as \<open>sort_key\<close> is.
\<close>

definition extendBranches :: "rng \<Rightarrow> nat \<Rightarrow> position list \<Rightarrow> js_error + position list \<times> nat" where
  "extendBranches rand k positions =
     (if positions = [] then Inl TypeError
      else
        (let centerX = sum_list (map pos_x positions) / real (length positions);
             centerY = sum_list (map pos_y positions) / real (length positions);
             sortedByY = sort_key pos_y positions;
             minY = pos_y (sortedByY ! 0);
             maxY = pos_y (sortedByY ! (length sortedByY - 1));
             treeHeight = maxY - minY;
             middleStart = minY + treeHeight * 0.3;
             middleEnd = minY + treeHeight * 0.8;
             middleParticles = filter (\<lambda>p. pos_y p \<ge> middleStart \<and> pos_y p \<le> middleEnd) positions;
             particlesWithDistance =
               map (\<lambda>p. (let dx = pos_x p - centerX; dy = pos_y p - centerY
                         in (p, sqrt (dx * dx + dy * dy)))) middleParticles;
             sortedByDistance = sort_key (\<lambda>pd. - snd pd) particlesWithDistance;
             outerParticles = take (nat \<lfloor>real (length middleParticles) * 0.25\<rfloor>) sortedByDistance;
             branchTips = List.map_filter (\<lambda>pd. branchTipOf middleParticles (fst pd)) outerParticles;
             sampled = randomFilter rand 0.20 branchTips k
         in Inr (fold (extendTip rand centerX) (fst sampled) ([], snd sampled))))"

text \<open>
  \<open>createPointCloud\<close>, lines 554--572: the extensions are appended to \<open>positions\<close>; an
  exception of an extender is caught and leaves \<open>positions\<close> as it is.
\<close>

definition extendedPositions :: "rng \<Rightarrow> nat \<Rightarrow> position list \<Rightarrow> position list \<times> nat" where
  "extendedPositions rand k positions =
     (let s1 = (case extendRoots rand k positions of
                  Inl e \<Rightarrow> (positions, k)
                | Inr r \<Rightarrow> (positions @ particleArray r, draws r))
      in case extendBranches rand (snd s1) (fst s1) of
           Inl e \<Rightarrow> s1
         | Inr b \<Rightarrow> (fst s1 @ fst b, snd b))"

section \<open>Particles and the engine state\<close>

text \<open>
  The logo's particles (\<open>buildpage-engine.js\<close>, lines 248--257) carry the baseline,
  the phases, the speed multiplier and the wind offset.  The tree's particles
  (\<open>tree-engine.js\<close>, lines 639--658) carry the same fields and add the growth and flow
  fields, so the tree's record extends the logo's.
\<close>

record logo_particle =
  originalX :: real
  originalY :: real
  originalZ :: real
  phaseY :: real
  phaseX :: real
  speedMultiplier :: real
  windOffsetX :: real
  windOffsetY :: real

record particle = logo_particle +
  isSaplingParticle :: bool
  growthOrder :: real
  currentOpacity :: real
  targetOpacity :: real
  flowOffset :: real
  driftX :: real
  driftZ :: real

text \<open>\<open>CONFIG.tree\<close>: the animation, slash and growth settings.\<close>

record tree_config =
  displayScale :: real
  flowSpeed :: real
  flowHeight :: real
  flowTurbulence :: real
  slashWidth :: real
  slashStrength :: real
  slashSmoothness :: real
  windReturnSpeed :: real
  growthDuration :: real

definition treeCONFIG :: tree_config where
  "treeCONFIG =
     \<lparr>displayScale = 0.576, flowSpeed = 0.12, flowHeight = 8, flowTurbulence = 0.04,
      slashWidth = 60, slashStrength = 20, slashSmoothness = 0.15, windReturnSpeed = 0.12,
      growthDuration = 10.0\<rparr>"

text \<open>
  The geometry attributes of \<open>particleSystem\<close>: the flat position buffer (three
  entries per particle) and the opacity buffer.  A write to a typed array beyond its
  length is ignored, as \<open>xs[i := v]\<close> is.
\<close>

record buffers =
  positionArray :: "real list"
  opacityArray :: "real list"

text \<open>
  The module's global state.  \<open>particleSystem\<close> is \<open>None\<close> while it is \<open>null\<close>.
  \<open>growthCallbacks\<close> holds the \<open>animateGrowth\<close> closures handed to
  \<open>requestAnimationFrame\<close> and not yet run, each by the \<open>startTime\<close> it captured.
  \<open>randomCalls\<close> counts the calls of \<open>Math.random()\<close>.  The flags
  \<open>saplingFlowInitialized\<close> and \<open>flowInitialized\<close> are the properties the animation
  loop sets on the particle array.
\<close>

record engine =
  isGrown :: bool
  flowAnimationEnabled :: bool
  saplingAnimationEnabled :: bool
  particles :: "particle list"
  particleSystem :: "buffers option"
  growthCallbacks :: "real list"
  mouseX :: real
  mouseY :: real
  prevMouseX :: real
  prevMouseY :: real
  mouseVelocityX :: real
  mouseVelocityY :: real
  innerWidth :: real
  innerHeight :: real
  saplingFlowInitialized :: bool
  flowInitialized :: bool
  randomCalls :: nat

text \<open>The state when the script is loaded (lines 40--55), for a window of the given size.\<close>

definition initialEngine :: "real \<Rightarrow> real \<Rightarrow> engine" where
  "initialEngine w h =
     \<lparr>isGrown = False, flowAnimationEnabled = False, saplingAnimationEnabled = True,
      particles = [], particleSystem = None, growthCallbacks = [],
      mouseX = 0, mouseY = 0, prevMouseX = 0, prevMouseY = 0,
      mouseVelocityX = 0, mouseVelocityY = 0, innerWidth = w, innerHeight = h,
      saplingFlowInitialized = False, flowInitialized = False, randomCalls = 0\<rparr>"


section \<open>Growth state machine (\<open>growTree\<close>, \<open>animateGrowth\<close>)\<close>

text \<open>The opacity \<open>animateGrowth\<close> gives a particle at a given progress (lines 742--766).\<close>

definition growthOpacity :: "real \<Rightarrow> particle \<Rightarrow> real" where
  "growthOpacity progress p =
     (if isSaplingParticle p then 1.0
      else
        (let fadeRange = 0.25;
             growthWave = progress * (1.0 + fadeRange);
             distanceFromWave = growthWave - growthOrder p
         in if distanceFromWave < 0 then 0.0
            else if distanceFromWave < fadeRange then distanceFromWave / fadeRange
            else 1.0))"

text \<open>
  The first \<open>particles.forEach\<close> of \<open>animateGrowth\<close>: the particle's opacity is set and
  copied to \<open>opacityArray[i]\<close>.
\<close>

definition growthBody :: "real \<Rightarrow> nat \<Rightarrow> particle list \<times> real list \<Rightarrow> particle list \<times> real list" where
  "growthBody progress i s =
     (let p = (fst s ! i)\<lparr>currentOpacity := growthOpacity progress (fst s ! i)\<rparr>
      in ((fst s)[i := p], (snd s)[i := currentOpacity p]))"

definition growthForEach :: "real \<Rightarrow> particle list \<times> real list \<Rightarrow> particle list \<times> real list" where
  "growthForEach progress s = fold (growthBody progress) [0..<length (fst s)] s"

text \<open>The second \<open>forEach\<close> (lines 779--782): every particle is made fully visible.\<close>

definition visibleBody :: "nat \<Rightarrow> particle list \<times> real list \<Rightarrow> particle list \<times> real list" where
  "visibleBody i s = ((fst s)[i := (fst s ! i)\<lparr>currentOpacity := 1.0\<rparr>], (snd s)[i := 1.0])"

definition visibleForEach :: "particle list \<times> real list \<Rightarrow> particle list \<times> real list" where
  "visibleForEach s = fold visibleBody [0..<length (fst s)] s"

text \<open>\<open>progress = Math.min(elapsed / duration, 1.0)\<close>, times in milliseconds.\<close>

definition growthProgress :: "tree_config \<Rightarrow> real \<Rightarrow> real \<Rightarrow> real" where
  "growthProgress cfg startTime now =
     (let elapsed = now - startTime;
          duration = growthDuration cfg * 1000
      in min (elapsed / duration) 1.0)"

text \<open>
  One run of the closure \<open>animateGrowth\<close> that captured \<open>startTime\<close>, with
  \<open>performance.now()\<close> returning \<open>now\<close>.  The guard of line 737 returns without
  asking for another frame.
\<close>

definition animateGrowth :: "tree_config \<Rightarrow> real \<Rightarrow> real \<Rightarrow> engine \<Rightarrow> engine" where
  "animateGrowth cfg startTime now st =
     (let progress = growthProgress cfg startTime now
      in case particleSystem st of
           None \<Rightarrow> st
         | Some sys \<Rightarrow>
             if particles st = [] then st
             else
               (let s1 = growthForEach progress (particles st, opacityArray sys)
                in if progress < 1.0
                   then st\<lparr>particles := fst s1,
                           particleSystem := Some (sys\<lparr>opacityArray := snd s1\<rparr>),
                           growthCallbacks := growthCallbacks st @ [startTime]\<rparr>
                   else
                     (let s2 = visibleForEach s1
                      in st\<lparr>particles := fst s2,
                             particleSystem := Some (sys\<lparr>opacityArray := snd s2\<rparr>)\<rparr>)))"

text \<open>
  \<open>growTree\<close>: \<open>startTime\<close> is the clock when it is called, \<open>now\<close> the clock read by
  the first, synchronous run of \<open>animateGrowth\<close>.
\<close>

definition growTree :: "tree_config \<Rightarrow> real \<Rightarrow> real \<Rightarrow> engine \<Rightarrow> engine" where
  "growTree cfg startTime now st =
     (if isGrown st then st
      else animateGrowth cfg startTime now
             (st\<lparr>isGrown := True, saplingAnimationEnabled := False,
                 flowAnimationEnabled := True\<rparr>))"

text \<open>A display frame runs the growth callbacks that were requested, each once.\<close>

definition growthFrame :: "tree_config \<Rightarrow> real \<Rightarrow> engine \<Rightarrow> engine" where
  "growthFrame cfg now st =
     fold (\<lambda>startTime s. animateGrowth cfg startTime now s) (growthCallbacks st)
       (st\<lparr>growthCallbacks := []\<rparr>)"

text \<open>
  The three states of the growth state machine are not a variable of the source; they
  are read off its flags: before the trigger, while a growth callback is pending, and
  after.
\<close>

datatype phase = SAPLING | GROWING | GROWN

definition phaseOf :: "engine \<Rightarrow> phase" where
  "phaseOf st =
     (if \<not> isGrown st then SAPLING
      else if growthCallbacks st \<noteq> [] then GROWING
      else GROWN)"



section \<open>Particle store (\<open>createPointCloud\<close>, lines 609--659)\<close>

text \<open>
  The growth order of a position (lines 623--637): 60% normalised height, 40% normalised
  distance from the central axis.  The distance is clamped at 1; the height is not.
\<close>

definition growthOrderOf :: "position \<Rightarrow> real" where
  "growthOrderOf pos =
     (let normalizedY = (pos_y pos + 512) / 1024;
          distanceFromCenter = sqrt (pos_x pos * pos_x pos + pos_z pos * pos_z pos);
          normalizedDistance = min (distanceFromCenter / 512) 1.0
      in normalizedY * 0.6 + normalizedDistance * 0.4)"

text \<open>
  The particle of the \<open>i\<close>-th position.  Which positions belong to the sapling, and how
  far the top ones are extended, is decided by a shuffle whose draws depend on the sort
  of the browser; both are parameters here (by index, as the source's set and map are by
  object identity).  The particle itself takes six draws.
\<close>

definition makeParticle ::
  "tree_config \<Rightarrow> rng \<Rightarrow> (nat \<Rightarrow> bool) \<Rightarrow> (nat \<Rightarrow> real option) \<Rightarrow> nat \<Rightarrow> nat \<Rightarrow> position \<Rightarrow> particle" where
  "makeParticle cfg rand saplingParticleSet particleExtensions k i pos =
     (let finalX = pos_x pos * displayScale cfg;
          finalY = (case particleExtensions i of
                      None \<Rightarrow> pos_y pos * displayScale cfg
                    | Some extension \<Rightarrow> pos_y pos * displayScale cfg + extension * displayScale cfg);
          finalZ = pos_z pos * displayScale cfg;
          isSapling = saplingParticleSet i
      in \<lparr>originalX = finalX, originalY = finalY, originalZ = finalZ,
          phaseY = rand (k + i * 6) * pi * 2,
          phaseX = rand (k + i * 6 + 1) * pi * 2,
          speedMultiplier = 0.8 + rand (k + i * 6 + 2) * 0.4,
          windOffsetX = 0, windOffsetY = 0,
          isSaplingParticle = isSapling,
          growthOrder = growthOrderOf pos,
          currentOpacity = (if isSapling then 1.0 else 0.0),
          targetOpacity = 1.0,
          flowOffset = rand (k + i * 6 + 3) * flowHeight cfg,
          driftX = (rand (k + i * 6 + 4) - 0.5) * flowTurbulence cfg,
          driftZ = (rand (k + i * 6 + 5) - 0.5) * flowTurbulence cfg\<rparr>)"

definition makeParticles ::
  "tree_config \<Rightarrow> rng \<Rightarrow> (nat \<Rightarrow> bool) \<Rightarrow> (nat \<Rightarrow> real option) \<Rightarrow> nat \<Rightarrow> position list \<Rightarrow> particle list" where
  "makeParticles cfg rand saplingParticleSet particleExtensions k positions =
     map (\<lambda>i. makeParticle cfg rand saplingParticleSet particleExtensions k i (positions ! i))
       [0..<length positions]"

section \<open>Kinematic updater: the tree (\<open>updateSaplingAnimation\<close>, \<open>updateFullTreeFlow\<close>)\<close>

text \<open>
  The two modes run the same statements on a particle (lines 829--872 and 916--959):
  the upward flow with its respawn, then the slash.  The particle's \<open>flowOffset\<close>,
  \<open>driftX\<close> and \<open>driftZ\<close> are set when it is created, so the lazy initialisation
  (\<open>=== undefined\<close>) of the two modes only sets its flag.
\<close>

definition flowStep :: "tree_config \<Rightarrow> rng \<Rightarrow> particle \<times> nat \<Rightarrow> particle \<times> nat" where
  "flowStep cfg rand pk =
     (let p = (fst pk)\<lparr>flowOffset := flowOffset (fst pk) + flowSpeed cfg\<rparr>;
          k = snd pk
      in if flowOffset p \<ge> flowHeight cfg
         then (p\<lparr>flowOffset := 0,
                 driftX := (rand k - 0.5) * flowTurbulence cfg,
                 driftZ := (rand (k + 1) - 0.5) * flowTurbulence cfg\<rparr>, k + 2)
         else (p, k))"

definition windReturn :: "tree_config \<Rightarrow> particle \<Rightarrow> particle" where
  "windReturn cfg p =
     p\<lparr>windOffsetX := windOffsetX p + (0 - windOffsetX p) * windReturnSpeed cfg,
       windOffsetY := windOffsetY p + (0 - windOffsetY p) * windReturnSpeed cfg\<rparr>"

definition slashStep :: "tree_config \<Rightarrow> real \<Rightarrow> real \<Rightarrow> real \<Rightarrow> real \<Rightarrow> particle \<Rightarrow> particle" where
  "slashStep cfg mouseWorldX mouseWorldY velX velY p =
     (let dx = originalX p - mouseWorldX;
          dy = originalY p - mouseWorldY;
          distanceToMouse = sqrt (dx * dx + dy * dy)
      in if distanceToMouse < slashWidth cfg then
           (let velocityMag = sqrt (velX * velX + velY * velY)
            in if velocityMag > 0.5 then
                 (let slashDirX = velX / velocityMag;
                      slashDirY = velY / velocityMag;
                      pushStrength = (1 - distanceToMouse / slashWidth cfg) * slashStrength cfg;
                      pushX = slashDirX * pushStrength;
                      pushY = slashDirY * pushStrength
                  in p\<lparr>windOffsetX := windOffsetX p + (pushX - windOffsetX p) * slashSmoothness cfg,
                        windOffsetY := windOffsetY p + (pushY - windOffsetY p) * slashSmoothness cfg\<rparr>)
               else windReturn cfg p)
         else windReturn cfg p)"

text \<open>Lines 875--877 and 962--964: the three entries of particle \<open>i\<close> in the position buffer.\<close>

definition writeTreePosition :: "nat \<Rightarrow> particle \<Rightarrow> real list \<Rightarrow> real list" where
  "writeTreePosition i p positions =
     positions
       [i * 3 := originalX p + driftX p + windOffsetX p,
        i * 3 + 1 := originalY p + flowOffset p + windOffsetY p,
        i * 3 + 2 := originalZ p + driftZ p]"

text \<open>The state of a \<open>forEach\<close> of the animation loop: particles, position buffer, draws.\<close>

type_synonym anim_state = "particle list \<times> real list \<times> nat"

definition moveParticle ::
  "tree_config \<Rightarrow> rng \<Rightarrow> real \<Rightarrow> real \<Rightarrow> real \<Rightarrow> real \<Rightarrow> nat \<Rightarrow> anim_state \<Rightarrow> anim_state" where
  "moveParticle cfg rand mouseWorldX mouseWorldY velX velY i s =
     (let pk = flowStep cfg rand (fst s ! i, snd (snd s));
          p = slashStep cfg mouseWorldX mouseWorldY velX velY (fst pk)
      in ((fst s)[i := p], writeTreePosition i p (fst (snd s)), snd pk))"

definition flowBody ::
  "tree_config \<Rightarrow> rng \<Rightarrow> real \<Rightarrow> real \<Rightarrow> real \<Rightarrow> real \<Rightarrow> nat \<Rightarrow> anim_state \<Rightarrow> anim_state" where
  "flowBody cfg rand mouseWorldX mouseWorldY velX velY i s =
     moveParticle cfg rand mouseWorldX mouseWorldY velX velY i s"

definition saplingBody ::
  "tree_config \<Rightarrow> rng \<Rightarrow> real \<Rightarrow> real \<Rightarrow> real \<Rightarrow> real \<Rightarrow> nat \<Rightarrow> anim_state \<Rightarrow> anim_state" where
  "saplingBody cfg rand mouseWorldX mouseWorldY velX velY i s =
     (if isSaplingParticle (fst s ! i)
      then moveParticle cfg rand mouseWorldX mouseWorldY velX velY i s
      else s)"

definition mouseWorldX_of :: "engine \<Rightarrow> real" where
  "mouseWorldX_of st = mouseX st - innerWidth st / 2"

definition mouseWorldY_of :: "engine \<Rightarrow> real" where
  "mouseWorldY_of st = - (mouseY st - innerHeight st / 2)"

definition storeAnim :: "engine \<Rightarrow> buffers \<Rightarrow> anim_state \<Rightarrow> engine" where
  "storeAnim st sys s =
     st\<lparr>particles := fst s,
        particleSystem := Some (sys\<lparr>positionArray := fst (snd s)\<rparr>),
        randomCalls := snd (snd s)\<rparr>"

definition updateSaplingAnimation :: "tree_config \<Rightarrow> rng \<Rightarrow> engine \<Rightarrow> engine" where
  "updateSaplingAnimation cfg rand st =
     (case particleSystem st of
        None \<Rightarrow> st
      | Some sys \<Rightarrow>
          if particles st = [] then st
          else if \<not> saplingAnimationEnabled st then st
          else
            storeAnim (st\<lparr>saplingFlowInitialized := True\<rparr>) sys
              (fold (saplingBody cfg rand (mouseWorldX_of st) (mouseWorldY_of st)
                       (mouseVelocityX st) (mouseVelocityY st))
                 [0..<length (particles st)]
                 (particles st, positionArray sys, randomCalls st)))"

definition updateFullTreeFlow :: "tree_config \<Rightarrow> rng \<Rightarrow> engine \<Rightarrow> engine" where
  "updateFullTreeFlow cfg rand st =
     (case particleSystem st of
        None \<Rightarrow> st
      | Some sys \<Rightarrow>
          if particles st = [] then st
          else if \<not> flowAnimationEnabled st then st
          else
            storeAnim (st\<lparr>flowInitialized := True\<rparr>) sys
              (fold (flowBody cfg rand (mouseWorldX_of st) (mouseWorldY_of st)
                       (mouseVelocityX st) (mouseVelocityY st))
                 [0..<length (particles st)]
                 (particles st, positionArray sys, randomCalls st)))"

text \<open>\<open>animate\<close>, lines 971--975: the mode is chosen by the two flags.\<close>

definition animate :: "tree_config \<Rightarrow> rng \<Rightarrow> engine \<Rightarrow> engine" where
  "animate cfg rand st =
     (if saplingAnimationEnabled st then updateSaplingAnimation cfg rand st
      else if flowAnimationEnabled st then updateFullTreeFlow cfg rand st
      else st)"

text \<open>The \<open>mousemove\<close> handler (lines 100--112).\<close>

definition mouseMove :: "real \<Rightarrow> real \<Rightarrow> engine \<Rightarrow> engine" where
  "mouseMove clientX clientY st =
     st\<lparr>prevMouseX := mouseX st, prevMouseY := mouseY st,
        mouseX := clientX, mouseY := clientY,
        mouseVelocityX := clientX - mouseX st,
        mouseVelocityY := clientY - mouseY st\<rparr>"


section \<open>Kinematic updater: the logo (\<open>updateParticlePositions\<close>)\<close>














text \<open>
  Reading the position buffer as the renderer does, three entries per particle; and
  the displayed position of the two engines as the source computes it.
\<close>

definition positionAt :: "real list \<Rightarrow> nat \<Rightarrow> real \<times> real \<times> real" where
  "positionAt positions i = (positions ! (i * 3), positions ! (i * 3 + 1), positions ! (i * 3 + 2))"

definition treeDisplayed :: "particle \<Rightarrow> real \<times> real \<times> real" where
  "treeDisplayed p =
     (originalX p + driftX p + windOffsetX p,
      originalY p + flowOffset p + windOffsetY p,
      originalZ p + driftZ p)"


text \<open>The fields of a particle that no frame of the animation loop writes.\<close>

definition sameBaseline :: "particle \<Rightarrow> particle \<Rightarrow> bool" where
  "sameBaseline p q =
     (originalX p = originalX q \<and> originalY p = originalY q \<and> originalZ p = originalZ q \<and>
      phaseY p = phaseY q \<and> phaseX p = phaseX q \<and> speedMultiplier p = speedMultiplier q \<and>
      isSaplingParticle p = isSaplingParticle q \<and> growthOrder p = growthOrder q \<and>
      currentOpacity p = currentOpacity q \<and> targetOpacity p = targetOpacity q)"

section \<open>The page as a transition system\<close>

text \<open>
  The store built by \<open>createPointCloud\<close> from its particles (lines 662--715): the
  buffers hold the baselines and the opacities.
\<close>

definition buildStore :: "particle list \<Rightarrow> engine \<Rightarrow> engine" where
  "buildStore ps st =
     st\<lparr>particles := ps,
        particleSystem :=
          Some \<lparr>positionArray = concat (map (\<lambda>p. [originalX p, originalY p, originalZ p]) ps),
                opacityArray = map currentOpacity ps\<rparr>\<rparr>"

text \<open>
  What can happen to the page after \<open>init\<close> has installed its handlers: a click on the
  trigger box (the handler of lines 123--144 calls \<open>growTree\<close> unless \<open>isGrown\<close>), a
  display frame running the pending growth callbacks, a frame of \<open>animate\<close>, a mouse
  move, and the image arriving, upon which \<open>createPointCloud\<close> builds the store, once.
  The handlers are installed before the image is awaited, so a click can come first.
\<close>

datatype event =
    Click real real
  | GrowthFrame real
  | AnimFrame
  | MouseMove real real
  | Build "particle list"

definition clickHandler :: "tree_config \<Rightarrow> real \<Rightarrow> real \<Rightarrow> engine \<Rightarrow> engine" where
  "clickHandler cfg startTime now st =
     (if \<not> isGrown st then growTree cfg startTime now st else st)"

fun step :: "tree_config \<Rightarrow> rng \<Rightarrow> event \<Rightarrow> engine \<Rightarrow> engine" where
  "step cfg rand (Click startTime now) st = clickHandler cfg startTime now st"
| "step cfg rand (GrowthFrame now) st = growthFrame cfg now st"
| "step cfg rand AnimFrame st = animate cfg rand st"
| "step cfg rand (MouseMove clientX clientY) st = mouseMove clientX clientY st"
| "step cfg rand (Build ps) st =
     (if particleSystem st = None \<and> ps \<noteq> [] then buildStore ps st else st)"

definition run :: "tree_config \<Rightarrow> rng \<Rightarrow> event list \<Rightarrow> engine \<Rightarrow> engine" where
  "run cfg rand es st = fold (step cfg rand) es st"

text \<open>
  What holds of the store in every state the page reaches: the buffers are as long as
  the particle array asks, there are particles only with a store, and a growth callback
  is pending only after the trigger, with a store, and alone.
\<close>

definition storeOk :: "engine \<Rightarrow> bool" where
  "storeOk st =
     ((case particleSystem st of
         None \<Rightarrow> particles st = []
       | Some sys \<Rightarrow>
           particles st \<noteq> [] \<and>
           length (opacityArray sys) = length (particles st) \<and>
           length (positionArray sys) = 3 * length (particles st)) \<and>
      length (growthCallbacks st) \<le> 1 \<and>
      (growthCallbacks st = [] \<or> (isGrown st \<and> particleSystem st \<noteq> None)))"

text \<open>
  The growth has completed with \<open>n\<close> particles: the trigger has fired, no growth
  callback is pending, and every particle and every entry of the opacity buffer is at 1.
\<close>

definition grownWith :: "nat \<Rightarrow> engine \<Rightarrow> bool" where
  "grownWith n st =
     (storeOk st \<and> isGrown st \<and> growthCallbacks st = [] \<and>
      map currentOpacity (particles st) = replicate n 1 \<and>
      (\<exists>sys. particleSystem st = Some sys \<and> opacityArray sys = replicate n 1))"

text \<open>
  The growth has stopped at the opacities \<open>os\<close>: the trigger has fired and no growth
  callback is pending, while the particles and the opacity buffer hold \<open>os\<close>.
\<close>

definition stoppedAt :: "real list \<Rightarrow> engine \<Rightarrow> bool" where
  "stoppedAt os st =
     (storeOk st \<and> isGrown st \<and> growthCallbacks st = [] \<and>
      map currentOpacity (particles st) = os \<and>
      (\<exists>sys. particleSystem st = Some sys \<and> opacityArray sys = os))"

section \<open>Concrete states\<close>

text \<open>
  A tree of one sapling particle at the origin, in a window 200 high with the pointer at
  its top left corner (100 away from the particle); and the state after the store is
  built and the trigger is clicked at time 0.
\<close>

definition exampleParticle :: particle where
  "exampleParticle =
     \<lparr>originalX = 0, originalY = 0, originalZ = 0, phaseY = pi / 2, phaseX = 0,
      speedMultiplier = 1, windOffsetX = 0, windOffsetY = 0,
      isSaplingParticle = True, growthOrder = 0.5, currentOpacity = 1, targetOpacity = 1,
      flowOffset = 1, driftX = 0, driftZ = 0\<rparr>"



text \<open>
  A tree of two particles, one of the sapling and one hidden with growth order 0.5,
  built and then triggered at time 0; and the same page when the click comes before the
  image has arrived.
\<close>

definition hiddenParticle :: particle where
  "hiddenParticle = exampleParticle\<lparr>isSaplingParticle := False, currentOpacity := 0\<rparr>"

definition growExample :: engine where
  "growExample =
     run treeCONFIG zeroDraws [Build [exampleParticle, hiddenParticle], Click 0 0]
       (initialEngine 0 200)"

definition earlyClickExample :: engine where
  "earlyClickExample =
     run treeCONFIG zeroDraws [Click 0 0, Build [exampleParticle, hiddenParticle]]
       (initialEngine 0 200)"

text \<open>
  The seed of a single dark pixel in the bottom row of the tree's canvas, at its centre
  column (pixel \<open>(512, 1023)\<close>, depth draw 0.5); and draws that select it as a root start
  (the first is below 0.2) and are 0.5 from then on.
\<close>

definition bottomSeed :: "position list" where
  "bottomSeed = [\<lparr>pos_x = 0, pos_y = - 511, pos_z = 0\<rparr>]"

definition rootDraws :: rng where
  "rootDraws k = (if k = 0 then 0.1 else 0.5)"








section \<open>The sampler in closed form\<close>

lemma enumerate_snoc: "enumerate k (xs @ [x]) = enumerate k xs @ [(k + length xs, x)]"
  by (simp add: enumerate_append_eq)

lemma samplePixel_seedState:
  "samplePixel v cfg d rand y x (seedState v cfg rand k pts) =
     seedState v cfg rand k (pts @ (if pixelIncluded cfg d y x then [(y, x)] else []))"
  by (simp add: samplePixel_def seedState_def enumerate_snoc mkSeed_def Let_def)

lemma stride_bound: "0 < s \<Longrightarrow> n * s < m \<longleftrightarrow> n < (m + s - 1) div s" for s n m :: nat
proof -
  assume s: "0 < s"
  have "n < (m + s - 1) div s \<longleftrightarrow> Suc n \<le> (m + s - 1) div s" by auto
  also have "\<dots> \<longleftrightarrow> Suc n * s \<le> m + s - 1" using s by (simp add: less_eq_div_iff_mult_less_eq)
  also have "\<dots> \<longleftrightarrow> n * s < m" using s by auto
  finally show ?thesis by simp
qed

lemma strideMultiples_step:
  "n < (m + s - 1) div s \<Longrightarrow> strideMultiples s m n = n * s # strideMultiples s m (Suc n)"
  by (simp add: strideMultiples_def upt_conv_Cons)

lemma strideMultiples_done:
  "\<not> n < (m + s - 1) div s \<Longrightarrow> strideMultiples s m n = []"
  by (simp add: strideMultiples_def)

lemma sampleCols_seedState:
  assumes s: "0 < cfg_samplingDensity cfg"
  shows "sampleCols v cfg d rand y (n * cfg_samplingDensity cfg) (seedState v cfg rand k pts) =
           Some (seedState v cfg rand k (pts @ rowPixels cfg d y n))"
proof (induction "(cfg_size cfg + cfg_samplingDensity cfg - 1) div cfg_samplingDensity cfg - n"
         arbitrary: n pts)
  case 0
  then have nlt: "\<not> n < (cfg_size cfg + cfg_samplingDensity cfg - 1) div cfg_samplingDensity cfg"
    by simp
  then have "\<not> n * cfg_samplingDensity cfg < cfg_size cfg"
    using stride_bound [OF s] by simp
  then show ?case
    using nlt by (subst sampleCols.simps) (simp add: rowPixels_def strideMultiples_done)
next
  case (Suc t)
  then have nlt: "n < (cfg_size cfg + cfg_samplingDensity cfg - 1) div cfg_samplingDensity cfg"
    by simp
  then have lt: "n * cfg_samplingDensity cfg < cfg_size cfg"
    using stride_bound [OF s] by simp
  have t: "t = (cfg_size cfg + cfg_samplingDensity cfg - 1) div cfg_samplingDensity cfg - Suc n"
    using Suc.hyps(2) by simp
  have step: "n * cfg_samplingDensity cfg + cfg_samplingDensity cfg = Suc n * cfg_samplingDensity cfg"
    by simp
  show ?case
    apply (subst sampleCols.simps)
    apply (simp only: lt if_True samplePixel_seedState step Suc.hyps(1) [OF t])
    apply (simp add: rowPixels_def strideMultiples_step [OF nlt])
    done
qed

lemma sampleRows_seedState:
  assumes s: "0 < cfg_samplingDensity cfg"
  shows "sampleRows v cfg d rand (m * cfg_samplingDensity cfg) (seedState v cfg rand k pts) =
           Some (seedState v cfg rand k (pts @ includedPixels cfg d m))"
proof (induction "(cfg_size cfg + cfg_samplingDensity cfg - 1) div cfg_samplingDensity cfg - m"
         arbitrary: m pts)
  case 0
  then have nlt: "\<not> m < (cfg_size cfg + cfg_samplingDensity cfg - 1) div cfg_samplingDensity cfg"
    by simp
  then have "\<not> m * cfg_samplingDensity cfg < cfg_size cfg"
    using stride_bound [OF s] by simp
  then show ?case
    using nlt by (subst sampleRows.simps) (simp add: includedPixels_def strideMultiples_done)
next
  case (Suc t)
  then have nlt: "m < (cfg_size cfg + cfg_samplingDensity cfg - 1) div cfg_samplingDensity cfg"
    by simp
  then have lt: "m * cfg_samplingDensity cfg < cfg_size cfg"
    using stride_bound [OF s] by simp
  have t: "t = (cfg_size cfg + cfg_samplingDensity cfg - 1) div cfg_samplingDensity cfg - Suc m"
    using Suc.hyps(2) by simp
  have step: "m * cfg_samplingDensity cfg + cfg_samplingDensity cfg = Suc m * cfg_samplingDensity cfg"
    by simp
  have cols: "sampleCols v cfg d rand (m * cfg_samplingDensity cfg) 0 (seedState v cfg rand k pts) =
      Some (seedState v cfg rand k (pts @ rowPixels cfg d (m * cfg_samplingDensity cfg) 0))"
    using sampleCols_seedState [OF s, of v d rand "m * cfg_samplingDensity cfg" 0 k pts] by simp
  show ?case
    apply (subst sampleRows.simps)
    apply (simp only: lt if_True cols Option.bind.simps step Suc.hyps(1) [OF t])
    apply (simp add: includedPixels_def strideMultiples_step [OF nlt])
    done
qed

lemma samplePositions_closed:
  assumes s: "0 < cfg_samplingDensity cfg"
  shows "samplePositions v cfg d rand k = Some (seedState v cfg rand k (includedPixels cfg d 0))"
  using sampleRows_seedState [OF s, of v d rand 0 k "[]"]
  by (simp add: samplePositions_def seedState_def)

lemma set_strideMultiples:
  assumes "0 < s"
  shows "set (strideMultiples s n 0) = {x. x < n \<and> s dvd x}"
proof -
  have "x \<in> set (strideMultiples s n 0) \<longleftrightarrow> x < n \<and> s dvd x" for x
  proof
    assume "x \<in> set (strideMultiples s n 0)"
    then obtain i where "i < (n + s - 1) div s" "x = i * s"
      by (auto simp: strideMultiples_def)
    then show "x < n \<and> s dvd x"
      using stride_bound [OF assms, of i n] by simp
  next
    assume "x < n \<and> s dvd x"
    then obtain i where i: "x = i * s" "i * s < n" by (metis dvd_def mult.commute)
    then have "i < (n + s - 1) div s" using stride_bound [OF assms, of i n] by simp
    then show "x \<in> set (strideMultiples s n 0)"
      using i by (auto simp: strideMultiples_def)
  qed
  then show ?thesis by blast
qed

lemma set_includedPixels:
  assumes "0 < cfg_samplingDensity cfg"
  shows "set (includedPixels cfg d 0) = {(y, x). visited cfg y x \<and> pixelIncluded cfg d y x}"
  by (auto simp: includedPixels_def rowPixels_def set_strideMultiples [OF assms] visited_def)

lemma planar_mkSeed: "planar (mkSeed v cfg rand (j, (y, x))) = seedXY cfg y x"
  by (simp add: planar_def mkSeed_def seedXY_def)

lemma map_planar_seedState:
  "map planar (fst (seedState v cfg rand k pts)) = map (\<lambda>(y, x). seedXY cfg y x) pts"
proof -
  have "map planar (map (mkSeed v cfg rand) (enumerate k pts)) = map (\<lambda>(y, x). seedXY cfg y x) pts"
    by (induction pts arbitrary: k) (auto simp: planar_mkSeed)
  then show ?thesis by (simp add: seedState_def)
qed

lemma length_seedState: "length (fst (seedState v cfg rand k pts)) = length pts"
  by (simp add: seedState_def)

lemma nth_seedState:
  "j < length pts \<Longrightarrow>
     fst (seedState v cfg rand k pts) ! j = mkSeed v cfg rand (k + j, pts ! j)"
  by (simp add: seedState_def nth_enumerate_eq)

lemma seedXY_inj: "seedXY cfg y x = seedXY cfg y' x' \<longleftrightarrow> y = y' \<and> x = x'"
  by (auto simp: seedXY_def posX_of_def posY_of_def)

lemma planar_set_seedState:
  "planar ` set (fst (seedState v cfg rand k pts)) = (\<lambda>(y, x). seedXY cfg y x) ` set pts"
  using map_planar_seedState [of v cfg rand k pts]
  by (metis set_map)

lemma seed_produced_iff:
  assumes "0 < cfg_samplingDensity cfg"
  shows "seedXY cfg y x \<in> planar ` set (fst (seedState v cfg rand k (includedPixels cfg d 0)))
           \<longleftrightarrow> visited cfg y x \<and> pixelIncluded cfg d y x"
  by (auto simp: planar_set_seedState set_includedPixels [OF assms] seedXY_inj)

lemma pixel_bytes:
  assumes "(y * cfg_size cfg + x) * 4 + 3 < length d"
  shows "pixelAlpha cfg d y x = Some (real (unat (d ! ((y * cfg_size cfg + x) * 4 + 3))))"
    and "pixelBrightness cfg d y x =
           Some ((real (unat (d ! ((y * cfg_size cfg + x) * 4)))
                  + real (unat (d ! ((y * cfg_size cfg + x) * 4 + 1)))
                  + real (unat (d ! ((y * cfg_size cfg + x) * 4 + 2)))) / 3)"
  using assms
  by (simp_all add: pixelAlpha_def pixelBrightness_def pixelIndex_def readByte_def brightness_def
      Let_def)

text \<open>
  Claim C5.  Let \<open>r\<close>, \<open>g\<close>, \<open>b\<close> and \<open>alpha\<close> be the four bytes of a pixel \<open>(x, y)\<close> the
  loops visit, read from the image data at \<open>(y * width + x) * 4\<close>.  If \<open>alpha \<le> 128\<close> or
  \<open>(r + g + b) / 3 \<ge> 128\<close>, no seed has the planar coordinates \<open>(x - width / 2,
  -(y - height / 2))\<close> of the pixel; if \<open>alpha = 255\<close> and \<open>(r + g + b) / 3 = 0\<close>, a seed
  has them; in general a seed has them exactly when \<open>alpha > 128\<close> and \<open>(r + g + b) / 3 <
  128\<close>.  The sampler returns for every positive stride.
\<close>

theorem sampler_threshold:
  assumes stride: "0 < cfg_samplingDensity cfg"
    and vis: "x < cfg_size cfg" "y < cfg_size cfg"
      "cfg_samplingDensity cfg dvd x" "cfg_samplingDensity cfg dvd y"
    and inside: "(y * cfg_size cfg + x) * 4 + 3 < length d"
    and r: "r = real (unat (d ! ((y * cfg_size cfg + x) * 4)))"
    and g: "g = real (unat (d ! ((y * cfg_size cfg + x) * 4 + 1)))"
    and b: "b = real (unat (d ! ((y * cfg_size cfg + x) * 4 + 2)))"
    and alpha: "alpha = real (unat (d ! ((y * cfg_size cfg + x) * 4 + 3)))"
    and xy: "xy = (real x - real (cfg_size cfg) / 2, - (real y - real (cfg_size cfg) / 2))"
  shows "\<exists>ps k'. samplePositions v cfg d rand k = Some (ps, k') \<and>
           (alpha \<le> 128 \<or> (r + g + b) / 3 \<ge> 128 \<longrightarrow> xy \<notin> (\<lambda>p. (pos_x p, pos_y p)) ` set ps) \<and>
           (alpha = 255 \<and> (r + g + b) / 3 = 0 \<longrightarrow> xy \<in> (\<lambda>p. (pos_x p, pos_y p)) ` set ps) \<and>
           (xy \<in> (\<lambda>p. (pos_x p, pos_y p)) ` set ps \<longleftrightarrow> alpha > 128 \<and> (r + g + b) / 3 < 128)"
proof -
  let ?st = "seedState v cfg rand k (includedPixels cfg d 0)"
  have run: "samplePositions v cfg d rand k = Some (fst ?st, snd ?st)"
    using samplePositions_closed [OF stride] by simp
  have visited: "visited cfg y x" using vis by (simp add: visited_def)
  have inc: "pixelIncluded cfg d y x \<longleftrightarrow> alpha > 128 \<and> (r + g + b) / 3 < 128"
    using pixel_bytes [OF inside] r g b alpha by (simp add: pixelIncluded_def includePixel_def)
  have pl: "(\<lambda>p. (pos_x p, pos_y p)) = planar" by (simp add: planar_def fun_eq_iff)
  have sxy: "xy = seedXY cfg y x" by (simp add: xy seedXY_def posX_of_def posY_of_def)
  have iff: "xy \<in> (\<lambda>p. (pos_x p, pos_y p)) ` set (fst ?st) \<longleftrightarrow> alpha > 128 \<and> (r + g + b) / 3 < 128"
    unfolding pl sxy using seed_produced_iff [OF stride] visited inc by simp
  have "(alpha \<le> 128 \<or> (r + g + b) / 3 \<ge> 128 \<longrightarrow> xy \<notin> (\<lambda>p. (pos_x p, pos_y p)) ` set (fst ?st)) \<and>
        (alpha = 255 \<and> (r + g + b) / 3 = 0 \<longrightarrow> xy \<in> (\<lambda>p. (pos_x p, pos_y p)) ` set (fst ?st)) \<and>
        (xy \<in> (\<lambda>p. (pos_x p, pos_y p)) ` set (fst ?st) \<longleftrightarrow> alpha > 128 \<and> (r + g + b) / 3 < 128)"
    unfolding iff by auto
  with run show ?thesis by blast
qed

lemma smallImage_run:
  "samplePositions v smallConfig smallImage rand k =
     Some ([mkSeed v smallConfig rand (k, (0, 0))], Suc k)"
proof -
  have s: "0 < cfg_samplingDensity smallConfig" by (simp add: smallConfig_def)
  have "includedPixels smallConfig smallImage 0 = [(0, 0)]"
    by (simp add: includedPixels_def rowPixels_def strideMultiples_def smallConfig_def
        pixelIncluded_def pixelAlpha_def pixelBrightness_def pixelIndex_def readByte_def
        brightness_def includePixel_def smallImage_def upt_conv_Cons)
  then show ?thesis
    using samplePositions_closed [OF s, of v smallImage rand k] by (simp add: seedState_def)
qed

theorem sampler_threshold_witness:
  "\<exists>ps k'. samplePositions TreeVariant smallConfig colourImage zeroDraws 0 = Some (ps, k') \<and>
      (- 1, 1) \<notin> (\<lambda>p. (pos_x p, pos_y p)) ` set ps \<and>
      (0, 1) \<in> (\<lambda>p. (pos_x p, pos_y p)) ` set ps \<and>
      (- 1, 0) \<in> (\<lambda>p. (pos_x p, pos_y p)) ` set ps \<and>
      (0, 0) \<notin> (\<lambda>p. (pos_x p, pos_y p)) ` set ps"
proof -
  have s: "0 < cfg_samplingDensity smallConfig" by (simp add: smallConfig_def)
  have sz: "cfg_size smallConfig = 2" "cfg_samplingDensity smallConfig = 1"
    by (simp_all add: smallConfig_def)
  note T = sampler_threshold [where cfg = smallConfig and d = colourImage
      and v = TreeVariant and rand = zeroDraws and k = 0, OF s _ _ _ _ _ refl refl refl refl refl]
  have a: "\<exists>ps k'. samplePositions TreeVariant smallConfig colourImage zeroDraws 0 = Some (ps, k') \<and>
      (- 1, 1) \<notin> (\<lambda>p. (pos_x p, pos_y p)) ` set ps"
    using T [of 0 0] by (simp add: sz colourImage_def)
  have b: "\<exists>ps k'. samplePositions TreeVariant smallConfig colourImage zeroDraws 0 = Some (ps, k') \<and>
      (0, 1) \<in> (\<lambda>p. (pos_x p, pos_y p)) ` set ps"
    using T [of 1 0] by (simp add: sz colourImage_def)
  have c: "\<exists>ps k'. samplePositions TreeVariant smallConfig colourImage zeroDraws 0 = Some (ps, k') \<and>
      (- 1, 0) \<in> (\<lambda>p. (pos_x p, pos_y p)) ` set ps"
    using T [of 0 1] by (simp add: sz colourImage_def)
  have d: "\<exists>ps k'. samplePositions TreeVariant smallConfig colourImage zeroDraws 0 = Some (ps, k') \<and>
      (0, 0) \<notin> (\<lambda>p. (pos_x p, pos_y p)) ` set ps"
    using T [of 1 1] by (simp add: sz colourImage_def)
  from a b c d show ?thesis by auto
qed

text \<open>
  Claim C9.  For a fixed image, configuration and stride, two runs of the sampler with
  different random draws return the same planar coordinates \<open>(x, y)\<close>, in the same
  order and number; only the depths can differ.
\<close>

theorem sampler_planar_deterministic:
  assumes "0 < cfg_samplingDensity cfg"
  shows "\<exists>ps1 k1' ps2 k2'.
           samplePositions v cfg d rand1 k1 = Some (ps1, k1') \<and>
           samplePositions v cfg d rand2 k2 = Some (ps2, k2') \<and>
           map planar ps1 = map planar ps2 \<and> length ps1 = length ps2"
proof -
  let ?st1 = "seedState v cfg rand1 k1 (includedPixels cfg d 0)"
  let ?st2 = "seedState v cfg rand2 k2 (includedPixels cfg d 0)"
  have "samplePositions v cfg d rand1 k1 = Some (fst ?st1, snd ?st1)"
    and "samplePositions v cfg d rand2 k2 = Some (fst ?st2, snd ?st2)"
    using samplePositions_closed [OF assms] by simp_all
  moreover have "map planar (fst ?st1) = map planar (fst ?st2)"
    by (simp only: map_planar_seedState)
  moreover have "length (fst ?st1) = length (fst ?st2)"
    by (simp only: length_seedState)
  ultimately show ?thesis by blast
qed

theorem sampler_planar_deterministic_witness:
  "0 < cfg_samplingDensity treeSamplerConfig \<and>
   (\<exists>ps1 k1' ps2 k2'.
      samplePositions TreeVariant treeSamplerConfig blackCorner zeroDraws 0 = Some (ps1, k1') \<and>
      samplePositions TreeVariant treeSamplerConfig blackCorner halfDraws 0 = Some (ps2, k2') \<and>
      map planar ps1 = map planar ps2 \<and> length ps1 = length ps2)"
proof -
  have s: "0 < cfg_samplingDensity treeSamplerConfig" by (simp add: treeSamplerConfig_def)
  show ?thesis
    using s sampler_planar_deterministic [OF s, of TreeVariant blackCorner zeroDraws 0 halfDraws 0]
    by simp
qed


lemma depthMultiplier_values:
  "depthMultiplier posY =
     (if posY > 0 then 0.12 else if posY > - 204.8 then 0.18
      else if posY > - 358.4 then 0.4 else 1)"
  by (simp add: depthMultiplier_def Let_def)

lemma includedPixels_first:
  assumes "0 < cfg_samplingDensity cfg" "0 < cfg_size cfg" "pixelIncluded cfg d 0 0"
  shows "\<exists>rest. includedPixels cfg d 0 = (0, 0) # rest"
proof -
  have n: "0 < (cfg_size cfg + cfg_samplingDensity cfg - 1) div cfg_samplingDensity cfg"
    using stride_bound [OF assms(1), of 0 "cfg_size cfg"] assms(2) by simp
  show ?thesis
    using assms(3)
    by (simp add: includedPixels_def rowPixels_def strideMultiples_step [OF n])
qed

lemma blackCorner_first:
  "\<exists>ps k'. samplePositions TreeVariant treeSamplerConfig blackCorner rand k =
      Some (mkSeed TreeVariant treeSamplerConfig rand (k, (0, 0)) # ps, k')"
proof -
  have s: "0 < cfg_samplingDensity treeSamplerConfig" "0 < cfg_size treeSamplerConfig"
    by (simp_all add: treeSamplerConfig_def)
  have "pixelIncluded treeSamplerConfig blackCorner 0 0"
    by (simp add: pixelIncluded_def pixelAlpha_def pixelBrightness_def pixelIndex_def
        readByte_def brightness_def includePixel_def blackCorner_def)
  then obtain rest where "includedPixels treeSamplerConfig blackCorner 0 = (0, 0) # rest"
    using includedPixels_first [OF s] by blast
  then show ?thesis
    using samplePositions_closed [OF s(1), of TreeVariant blackCorner rand k]
    by (simp add: seedState_def)
qed

text \<open>
  Claim C8, as stated, fails for the tree: the seed of the top-left pixel of a
  1024 x 1024 canvas, with the draw 0, has depth \<open>-1.5\<close>, not
  \<open>(0 - 0.5) * depthRange = -12.5\<close>.
\<close>

theorem sampler_depth_full_range_counterexample:
  "pos_z (hd (fst (the (samplePositions TreeVariant treeSamplerConfig blackCorner zeroDraws 0)))) = - 1.5 \<and>
   pos_z (hd (fst (the (samplePositions TreeVariant treeSamplerConfig blackCorner zeroDraws 0))))
     \<noteq> (zeroDraws 0 - 0.5) * cfg_depthRange treeSamplerConfig"
proof -
  obtain ps k' where "samplePositions TreeVariant treeSamplerConfig blackCorner zeroDraws 0 =
      Some (mkSeed TreeVariant treeSamplerConfig zeroDraws (0, (0, 0)) # ps, k')"
    using blackCorner_first by blast
  then show ?thesis
    by (simp add: mkSeed_def posZ_def posY_of_def treeSamplerConfig_def zeroDraws_def
        depthMultiplier_values)
qed

text \<open>
  Claim C8, amended.  The \<open>j\<close>-th seed of a run takes the \<open>j\<close>-th draw \<open>r\<close> of the
  run, one draw per seed.  In the logo variant its depth is \<open>(r - 0.5) * depthRange\<close>; in
  the tree variant it is \<open>(r - 0.5) * depthRange * depthMultiplier\<close>, where the multiplier
  depends on the seed's height (0.12, 0.18, 0.4 or 1).
\<close>

theorem sampler_depth:
  assumes "0 < cfg_samplingDensity cfg"
  shows "\<exists>ps k'. samplePositions v cfg d rand k = Some (ps, k') \<and> k' = k + length ps \<and>
           (\<forall>j<length ps.
              pos_z (ps ! j) =
                (rand (k + j) - 0.5) * cfg_depthRange cfg *
                (case v of TreeVariant \<Rightarrow> depthMultiplier (pos_y (ps ! j)) | LogoVariant \<Rightarrow> 1))"
proof -
  let ?pts = "includedPixels cfg d 0"
  let ?st = "seedState v cfg rand k ?pts"
  have run: "samplePositions v cfg d rand k = Some (fst ?st, snd ?st)"
    using samplePositions_closed [OF assms] by simp
  have len: "snd ?st = k + length (fst ?st)"
    by (simp add: seedState_def)
  have z: "pos_z (fst ?st ! j) =
      (rand (k + j) - 0.5) * cfg_depthRange cfg *
      (case v of TreeVariant \<Rightarrow> depthMultiplier (pos_y (fst ?st ! j)) | LogoVariant \<Rightarrow> 1)"
    if "j < length (fst ?st)" for j
  proof -
    from that have j: "j < length ?pts" by (simp add: length_seedState)
    obtain y x where yx: "?pts ! j = (y, x)" by (cases "?pts ! j")
    show ?thesis
      unfolding nth_seedState [OF j] yx
      by (cases v) (simp_all add: mkSeed_def posZ_def)
  qed
  from run len z show ?thesis by blast
qed

theorem sampler_depth_witness:
  "0 < cfg_samplingDensity smallConfig \<and>
   (\<exists>ps k'. samplePositions TreeVariant smallConfig smallImage zeroDraws 0 = Some (ps, k') \<and>
      k' = 1 \<and> length ps = 1 \<and> pos_z (ps ! 0) = - 1.5) \<and>
   (\<exists>ps k'. samplePositions LogoVariant smallConfig smallImage zeroDraws 0 = Some (ps, k') \<and>
      k' = 1 \<and> length ps = 1 \<and> pos_z (ps ! 0) = - 12.5)"
proof -
  have s: "0 < cfg_samplingDensity smallConfig" by (simp add: smallConfig_def)
  obtain ps k' where run: "samplePositions TreeVariant smallConfig smallImage zeroDraws 0 = Some (ps, k')"
    and k': "k' = 0 + length ps"
    and z: "\<forall>j<length ps. pos_z (ps ! j) =
        (zeroDraws (0 + j) - 0.5) * cfg_depthRange smallConfig *
        (case TreeVariant of TreeVariant \<Rightarrow> depthMultiplier (pos_y (ps ! j)) | LogoVariant \<Rightarrow> 1)"
    using sampler_depth [OF s, of TreeVariant smallImage zeroDraws 0] by blast
  have ps: "ps = [mkSeed TreeVariant smallConfig zeroDraws (0, (0, 0))]"
    using run smallImage_run [of TreeVariant zeroDraws 0] by simp
  have y: "pos_y (ps ! 0) = 1"
    by (simp add: ps mkSeed_def posY_of_def smallConfig_def)
  have "pos_z (ps ! 0) = - 1.5"
    using z [rule_format, of 0]
    by (simp add: y depthMultiplier_values zeroDraws_def smallConfig_def) (simp add: ps)
  with run k' ps have tree: "\<exists>ps k'.
      samplePositions TreeVariant smallConfig smallImage zeroDraws 0 = Some (ps, k') \<and>
      k' = 1 \<and> length ps = 1 \<and> pos_z (ps ! 0) = - 1.5"
    by simp
  obtain qs l' where lrun: "samplePositions LogoVariant smallConfig smallImage zeroDraws 0 = Some (qs, l')"
    and l': "l' = 0 + length qs"
    and lz: "\<forall>j<length qs. pos_z (qs ! j) =
        (zeroDraws (0 + j) - 0.5) * cfg_depthRange smallConfig *
        (case LogoVariant of TreeVariant \<Rightarrow> depthMultiplier (pos_y (qs ! j)) | LogoVariant \<Rightarrow> 1)"
    using sampler_depth [OF s, of LogoVariant smallImage zeroDraws 0] by blast
  have qs: "length qs = 1"
    using lrun smallImage_run [of LogoVariant zeroDraws 0] by auto
  have "pos_z (qs ! 0) = - 12.5"
    using lz [rule_format, of 0] qs by (simp add: zeroDraws_def smallConfig_def)
  with lrun l' qs have "\<exists>ps k'.
      samplePositions LogoVariant smallConfig smallImage zeroDraws 0 = Some (ps, k') \<and>
      k' = 1 \<and> length ps = 1 \<and> pos_z (ps ! 0) = - 12.5"
    by simp
  with s tree show ?thesis by blast
qed

section \<open>Branch extension: the outward bias\<close>

text \<open>
  Claim C10.  The outward bias of a branch tip never divides by zero: it is \<open>0.3\<close> for a
  tip right of the centroid, \<open>-0.3\<close> for a tip left of it, and exactly \<open>0\<close> for a tip
  whose \<open>x\<close> is the centroid's, where the fallback makes the denominator 1.
\<close>

theorem outwardBiasX_cases:
  "outwardBiasDenominator particle_x centerX \<noteq> 0 \<and>
   (centerX < particle_x \<longrightarrow> outwardBiasX particle_x centerX = 0.3) \<and>
   (particle_x < centerX \<longrightarrow> outwardBiasX particle_x centerX = - 0.3) \<and>
   (particle_x = centerX \<longrightarrow>
      outwardBiasDenominator particle_x centerX = 1 \<and> outwardBiasX particle_x centerX = 0)"
proof -
  have pos: "d / \<bar>d\<bar> = 1" if "0 < d" for d :: real using that by simp
  have neg: "d / \<bar>d\<bar> = - 1" if "d < 0" for d :: real using that by simp
  have "centerX < particle_x \<Longrightarrow> outwardBiasX particle_x centerX = 0.3"
    using pos [of "particle_x - centerX"]
    by (simp add: outwardBiasX_def outwardBiasDenominator_def js_or_def)
  moreover have "particle_x < centerX \<Longrightarrow> outwardBiasX particle_x centerX = - 0.3"
    using neg [of "particle_x - centerX"]
    by (simp add: outwardBiasX_def outwardBiasDenominator_def js_or_def)
  moreover have "outwardBiasDenominator particle_x centerX \<noteq> 0"
    by (simp add: outwardBiasDenominator_def js_or_def)
  moreover have "particle_x = centerX \<Longrightarrow>
      outwardBiasDenominator particle_x centerX = 1 \<and> outwardBiasX particle_x centerX = 0"
    by (simp add: outwardBiasX_def outwardBiasDenominator_def js_or_def)
  ultimately show ?thesis by blast
qed

theorem outwardBiasX_cases_witness:
  "outwardBiasDenominator 3 1 \<noteq> 0 \<and> outwardBiasX 3 1 = 0.3 \<and>
   outwardBiasDenominator (- 512) (- 500) \<noteq> 0 \<and> outwardBiasX (- 512) (- 500) = - 0.3 \<and>
   outwardBiasDenominator 7 7 = 1 \<and> outwardBiasX 7 7 = 0"
  using outwardBiasX_cases [of 3 1] outwardBiasX_cases [of "- 512" "- 500"]
    outwardBiasX_cases [of 7 7]
  by simp

section \<open>Root extension: bounds\<close>

lemma ring_fold:
  "length (particleArray (fold (ringBody rand w t) [0..<n] s)) = length (particleArray s) + n \<and>
   callDepths (fold (ringBody rand w t) [0..<n] s) = callDepths s"
  by (induction n) (simp_all add: ringBody_def Let_def)

lemma particlesInRing_mono: "t \<le> T \<Longrightarrow> particlesInRing t \<le> particlesInRing T"
proof -
  assume "t \<le> T"
  then have "\<lfloor>t * 4\<rfloor> \<le> \<lfloor>T * 4\<rfloor>" by (intro floor_mono) simp
  then show ?thesis by (simp add: particlesInRing_def)
qed

lemma segment_fold:
  assumes "0 \<le> thickness"
  shows "length (particleArray (snd (fold (segmentBody rand thickness segments) [0..<n] (w, s))))
           \<le> length (particleArray s) + n * particlesInRing thickness \<and>
         callDepths (snd (fold (segmentBody rand thickness segments) [0..<n] (w, s))) = callDepths s"
proof (induction n)
  case 0
  then show ?case by simp
next
  case (Suc n)
  let ?ws = "fold (segmentBody rand thickness segments) [0..<n] (w, s)"
  have "0 \<le> real n / real segments * 0.5" by simp
  then have "thickness * (1 - real n / real segments * 0.5) \<le> thickness * 1"
    using assms by (intro mult_left_mono) simp_all
  then have "particlesInRing (thickness * (1 - real n / real segments * 0.5)) \<le> particlesInRing thickness"
    using particlesInRing_mono by simp
  then show ?case
    using Suc by (simp add: segmentBody_def Let_def ring_fold)
qed

lemma segments_bound:
  assumes "unit_draws rand"
  shows "nat \<lfloor>(50 + rand k * 70) / 4\<rfloor> \<le> 29"
proof -
  have "rand k < 1" using assms by (simp add: unit_draws_def)
  then have "(50 + rand k * 70) / 4 < 30" by simp
  then have "\<lfloor>(50 + rand k * 70) / 4\<rfloor> < 30" by (simp add: floor_less_iff)
  then show ?thesis by linarith
qed

lemma drawBranch_bound:
  assumes "unit_draws rand" "0 \<le> thickness"
  shows "length (particleArray (snd (drawBranch rand startPos thickness biasX biasZ s)))
           \<le> length (particleArray s) + 29 * particlesInRing thickness \<and>
         callDepths (snd (drawBranch rand startPos thickness biasX biasZ s)) = callDepths s"
proof -
  let ?n = "nat \<lfloor>(50 + rand (draws s) * 70) / 4\<rfloor>"
  obtain w where d: "drawBranch rand startPos thickness biasX biasZ s =
      fold (segmentBody rand thickness ?n) [0..<?n] (w, s\<lparr>draws := draws s + 4\<rparr>)"
    by (simp add: drawBranch_def Let_def)
  have le: "?n * particlesInRing thickness \<le> 29 * particlesInRing thickness"
    using segments_bound [OF assms(1)] by (intro mult_le_mono1)
  have "length (particleArray (snd (drawBranch rand startPos thickness biasX biasZ s)))
      \<le> length (particleArray s) + ?n * particlesInRing thickness"
    and c: "callDepths (snd (drawBranch rand startPos thickness biasX biasZ s)) = callDepths s"
    unfolding d using segment_fold [OF assms(2), of rand ?n ?n w "s\<lparr>draws := draws s + 4\<rparr>"]
    by simp_all
  with le show ?thesis by linarith
qed

lemma particlesInRing_values: "particlesInRing 1 = 4" "particlesInRing 0.6 = 2"
  by (simp_all add: particlesInRing_def)

lemma createRootBranch_leaf:
  assumes "unit_draws rand" "0 \<le> thickness" "thickness \<le> 0.6"
  shows "length (particleArray (createRootBranch rand startPos (Suc 0) thickness biasX biasZ s))
           \<le> length (particleArray s) + 58 \<and>
         callDepths (createRootBranch rand startPos (Suc 0) thickness biasX biasZ s)
           = callDepths s @ [Suc 0]"
proof -
  let ?s = "s\<lparr>callDepths := callDepths s @ [Suc 0]\<rparr>"
  have "particlesInRing thickness \<le> 2"
    using particlesInRing_mono [OF assms(3)] unfolding particlesInRing_values .
  then have "29 * particlesInRing thickness \<le> 58" by simp
  then show ?thesis
    using drawBranch_bound [OF assms(1,2), of startPos biasX biasZ ?s]
    by (subst createRootBranch.simps, subst createRootBranch.simps) (simp add: Let_def)
qed

lemma createRootBranch_top:
  assumes "unit_draws rand"
  shows "length (particleArray (createRootBranch rand startPos 0 1 biasX biasZ s))
           \<le> length (particleArray s) + 290 \<and>
         set (callDepths (createRootBranch rand startPos 0 1 biasX biasZ s))
           \<subseteq> set (callDepths s) \<union> {0, 1}"
proof -
  let ?s = "s\<lparr>callDepths := callDepths s @ [0]\<rparr>"
  let ?ws = "drawBranch rand startPos 1 biasX biasZ ?s"
  have own: "length (particleArray (snd ?ws)) \<le> length (particleArray s) + 116"
    "callDepths (snd ?ws) = callDepths s @ [0]"
    using drawBranch_bound [OF assms, of 1 startPos biasX biasZ ?s]
    by (simp_all add: particlesInRing_values)
  let ?child = "\<lambda>(b::nat) s'.
       createRootBranch rand (subBranchStart rand (fst ?ws) (draws s'))
         (0 + 1) (1 * 0.6)
         (angleX (fst ?ws) + (rand (draws s' + 2) - 0.5) * 0.5)
         (angleZ (fst ?ws) + (rand (draws s' + 3) - 0.5) * 0.5)
         (s'\<lparr>draws := draws s' + 4\<rparr>)"
  have children: "length (particleArray (fold ?child [0..<n] s1)) \<le> length (particleArray s1) + n * 58 \<and>
      set (callDepths (fold ?child [0..<n] s1)) \<subseteq> set (callDepths s1) \<union> {1}" for n s1
  proof (induction n)
    case 0
    then show ?case by auto
  next
    case (Suc n)
    let ?r = "fold ?child [0..<n] s1"
    have "length (particleArray (?child n ?r)) \<le> length (particleArray ?r) + 58 \<and>
          callDepths (?child n ?r) = callDepths ?r @ [Suc 0]"
      using createRootBranch_leaf [OF assms, of "1 * 0.6" _ _ _ "?r\<lparr>draws := draws ?r + 4\<rparr>"]
      by simp
    then show ?case using Suc by auto
  qed
  have two: "n \<le> 3 \<Longrightarrow> length (particleArray (fold ?child [0..<n] s1)) \<le> length (particleArray s1) + 174"
    for n s1
  proof -
    assume "n \<le> 3"
    then have "n * 58 \<le> 174" by simp
    moreover have "length (particleArray (fold ?child [0..<n] s1)) \<le> length (particleArray s1) + n * 58"
      using children [of n s1] by blast
    ultimately show ?thesis by linarith
  qed
  let ?s1 = "snd ?ws"
  let ?s2 = "?s1\<lparr>draws := draws ?s1 + 2\<rparr>"
  note unf = createRootBranch.simps [of rand startPos 0 1 biasX biasZ s, unfolded Let_def]
  show ?thesis
  proof (cases "2 \<le> (0::nat) \<or> (1::real) < 0.2 \<or> 100000 < length (particleArray ?s)")
    case True
    have "createRootBranch rand startPos 0 1 biasX biasZ s = ?s"
      using unf [unfolded if_P [OF True]] .
    then have "length (particleArray (createRootBranch rand startPos 0 1 biasX biasZ s)) = length (particleArray s)"
      "callDepths (createRootBranch rand startPos 0 1 biasX biasZ s) = callDepths s @ [0]"
      by simp_all
    then show ?thesis by (simp add: subset_iff)
  next
    case False
    have d: "(0::nat) < 1" by simp
    note unf2 = unf [unfolded if_not_P [OF False] if_P [OF d]]
    show ?thesis
    proof (cases "rand (draws ?s1) < 0.35 \<and> length (particleArray ?s1) < 80000")
      case no: False
      have "createRootBranch rand startPos 0 1 biasX biasZ s = ?s1\<lparr>draws := draws ?s1 + 1\<rparr>"
        using unf2 [unfolded if_not_P [OF no]] .
      then have "length (particleArray (createRootBranch rand startPos 0 1 biasX biasZ s))
            = length (particleArray ?s1)"
        "callDepths (createRootBranch rand startPos 0 1 biasX biasZ s) = callDepths ?s1"
        by simp_all
      then show ?thesis using own by (simp add: subset_iff)
    next
      case yes: True
      define n :: nat where "n = (if rand (draws ?s1 + 1) < 0.7 then 2 else 3)"
      have n3: "n \<le> 3" by (simp add: n_def)
      have r: "createRootBranch rand startPos 0 1 biasX biasZ s = fold ?child [0..<n] ?s2"
        using unf2 [unfolded if_P [OF yes]] unfolding n_def .
      have "length (particleArray (fold ?child [0..<n] ?s2)) \<le> length (particleArray ?s2) + 174"
        by (rule two [OF n3])
      moreover have "set (callDepths (fold ?child [0..<n] ?s2)) \<subseteq> set (callDepths ?s2) \<union> {1}"
        using children [of n ?s2] by blast
      moreover have "length (particleArray ?s2) = length (particleArray ?s1)"
        "callDepths ?s2 = callDepths ?s1" by simp_all
      ultimately have "length (particleArray (fold ?child [0..<n] ?s2)) \<le> length (particleArray s) + 290"
        "set (callDepths (fold ?child [0..<n] ?s2)) \<subseteq> set (callDepths s) \<union> {0, 1}"
        using own by (simp, auto)
      then show ?thesis unfolding r by blast
    qed
  qed
qed

lemma rootStarts_fold:
  assumes "unit_draws rand"
  shows "length (particleArray (fold (\<lambda>startParticle s.
              createRootBranch rand startParticle 0 1 (bx startParticle) (bz startParticle) s) starts s0))
           \<le> length (particleArray s0) + 290 * length starts \<and>
         set (callDepths (fold (\<lambda>startParticle s.
              createRootBranch rand startParticle 0 1 (bx startParticle) (bz startParticle) s) starts s0))
           \<subseteq> set (callDepths s0) \<union> {0, 1}"
proof (induction starts arbitrary: s0)
  case Nil
  then show ?case by auto
next
  case (Cons a starts)
  let ?s1 = "createRootBranch rand a 0 1 (bx a) (bz a) s0"
  have one: "length (particleArray ?s1) \<le> length (particleArray s0) + 290"
    "set (callDepths ?s1) \<subseteq> set (callDepths s0) \<union> {0, 1}"
    using createRootBranch_top [OF assms, of a "bx a" "bz a" s0] by blast+
  have rest: "length (particleArray (fold (\<lambda>startParticle s.
              createRootBranch rand startParticle 0 1 (bx startParticle) (bz startParticle) s) starts ?s1))
           \<le> length (particleArray ?s1) + 290 * length starts"
    "set (callDepths (fold (\<lambda>startParticle s.
              createRootBranch rand startParticle 0 1 (bx startParticle) (bz startParticle) s) starts ?s1))
           \<subseteq> set (callDepths ?s1) \<union> {0, 1}"
    using Cons.IH [of ?s1] by blast+
  have "length (particleArray (fold (\<lambda>startParticle s.
              createRootBranch rand startParticle 0 1 (bx startParticle) (bz startParticle) s) starts ?s1))
           \<le> length (particleArray s0) + 290 * length (a # starts)"
    using one(1) rest(1) by simp
  moreover have "set (callDepths (fold (\<lambda>startParticle s.
              createRootBranch rand startParticle 0 1 (bx startParticle) (bz startParticle) s) starts ?s1))
           \<subseteq> set (callDepths s0) \<union> {0, 1}"
    using one(2) rest(2) by blast
  ultimately show ?case by simp
qed

lemma extendRoots_empty: "extendRoots rand k [] = Inl TypeError"
  by (simp add: extendRoots_def)

lemma extendRoots_bound:
  assumes "unit_draws rand" "positions \<noteq> []"
  shows "\<exists>r. extendRoots rand k positions = Inr r \<and>
            length (particleArray r) \<le> 14500 \<and> set (callDepths r) \<subseteq> {0, 1}"
proof -
  obtain starts bx bz k1 where e: "extendRoots rand k positions =
      Inr (fold (\<lambda>startParticle s.
              createRootBranch rand startParticle 0 1 (bx startParticle) (bz startParticle) s)
            (take 50 starts) \<lparr>particleArray = [], draws = k1, callDepths = []\<rparr>)"
    using assms(2) by (simp add: extendRoots_def Let_def)
  let ?r = "fold (\<lambda>startParticle s.
              createRootBranch rand startParticle 0 1 (bx startParticle) (bz startParticle) s)
            (take 50 starts) \<lparr>particleArray = [], draws = k1, callDepths = []\<rparr>"
  have len: "290 * length (take 50 starts) \<le> 14500" by simp
  have "length (particleArray ?r) \<le> 0 + 290 * length (take 50 starts)"
    and d: "set (callDepths ?r) \<subseteq> {} \<union> {0, 1}"
    using rootStarts_fold [OF assms(1), of bx bz "take 50 starts"
        "\<lparr>particleArray = [], draws = k1, callDepths = []\<rparr>"]
    by simp_all
  with len have "length (particleArray ?r) \<le> 14500" by linarith
  with d e show ?thesis by simp
qed

lemma length_randomFilter: "length (fst (randomFilter rand q xs k)) \<le> length xs"
  by (induction xs arbitrary: k) (simp_all add: Let_def le_SucI)

lemma tipSegment_length:
  "length (fst (snd (tipSegment rand tip bx bz n i cs))) \<le> length (fst (snd cs)) + 1"
  by (simp add: tipSegment_def Let_def)

lemma tipSegments_length:
  "length (fst (snd (fold (tipSegment rand tip bx bz n) [a..<a + m] cs))) \<le> length (fst (snd cs)) + m"
proof (induction m)
  case 0
  then show ?case by simp
next
  case (Suc m)
  have "length (fst (snd (tipSegment rand tip bx bz n (a + m)
            (fold (tipSegment rand tip bx bz n) [a..<a + m] cs))))
        \<le> length (fst (snd (fold (tipSegment rand tip bx bz n) [a..<a + m] cs))) + 1"
    by (rule tipSegment_length)
  then show ?case using Suc by simp
qed

lemma extensionSegments_bound:
  assumes "unit_draws rand"
  shows "nat \<lfloor>(30 + rand k * 30) / 3\<rfloor> \<le> 19"
proof -
  have "rand k < 1" using assms by (simp add: unit_draws_def)
  then have "(30 + rand k * 30) / 3 < 20" by simp
  then have "\<lfloor>(30 + rand k * 30) / 3\<rfloor> < 20" by (simp add: floor_less_iff)
  then show ?thesis by linarith
qed

lemma extendTip_length:
  assumes "unit_draws rand"
  shows "length (fst (extendTip rand centerX tip s)) \<le> length (fst s) + 19"
proof -
  let ?n = "nat \<lfloor>(30 + rand (snd s) * 30) / 3\<rfloor>"
  obtain bx bz c where e: "extendTip rand centerX tip s =
      snd (fold (tipSegment rand tip bx bz ?n) [1..<1 + ?n] (c, fst s, snd s + 2))"
    by (simp add: extendTip_def Let_def)
  have "length (fst (extendTip rand centerX tip s)) \<le> length (fst s) + ?n"
    unfolding e using tipSegments_length [of rand tip bx bz ?n 1 ?n "(c, fst s, snd s + 2)"]
    by simp
  with extensionSegments_bound [OF assms, of "snd s"] show ?thesis by linarith
qed

lemma extendTips_length:
  assumes "unit_draws rand"
  shows "length (fst (fold (extendTip rand centerX) tips s)) \<le> length (fst s) + 19 * length tips"
proof (induction tips arbitrary: s)
  case Nil
  then show ?case by simp
next
  case (Cons t tips)
  have "length (fst (fold (extendTip rand centerX) tips (extendTip rand centerX t s)))
      \<le> length (fst (extendTip rand centerX t s)) + 19 * length tips"
    by (rule Cons.IH)
  with extendTip_length [OF assms, of centerX t s] show ?case by simp
qed

lemma length_map_filter: "length (List.map_filter f xs) \<le> length xs"
  by (induction xs) (simp_all add: List.map_filter_simps le_SucI split: option.splits)

lemma extendBranches_empty: "extendBranches rand k [] = Inl TypeError"
  by (simp add: extendBranches_def)

lemma extendBranches_bound:
  assumes "unit_draws rand" "positions \<noteq> []"
  shows "\<exists>b. extendBranches rand k positions = Inr b \<and> length (fst b) \<le> 19 * length positions"
proof -
  define centerX where "centerX = sum_list (map pos_x positions) / real (length positions)"
  define centerY where "centerY = sum_list (map pos_y positions) / real (length positions)"
  define minY where "minY = pos_y (sort_key pos_y positions ! 0)"
  define maxY where "maxY = pos_y (sort_key pos_y positions ! (length (sort_key pos_y positions) - 1))"
  define middle where "middle = filter (\<lambda>p. pos_y p \<ge> minY + (maxY - minY) * 0.3 \<and>
      pos_y p \<le> minY + (maxY - minY) * 0.8) positions"
  define outer where "outer = take (nat \<lfloor>real (length middle) * 0.25\<rfloor>)
      (sort_key (\<lambda>pd. - snd pd)
         (map (\<lambda>p. (let dx = pos_x p - centerX; dy = pos_y p - centerY
                         in (p, sqrt (dx * dx + dy * dy)))) middle))"
  define tips where "tips = List.map_filter (\<lambda>pd. branchTipOf middle (fst pd)) outer"
  define sampled where "sampled = randomFilter rand 0.20 tips k"
  have e: "extendBranches rand k positions =
      Inr (fold (extendTip rand centerX) (fst sampled) ([], snd sampled))"
    using assms(2)
    by (simp add: extendBranches_def Let_def centerX_def centerY_def minY_def maxY_def
        middle_def outer_def tips_def sampled_def)
  have "length (fst sampled) \<le> length tips"
    unfolding sampled_def by (rule length_randomFilter)
  also have "\<dots> \<le> length outer" unfolding tips_def by (rule length_map_filter)
  also have "\<dots> \<le> length middle" unfolding outer_def by simp
  also have "\<dots> \<le> length positions" unfolding middle_def by simp
  finally have n: "length (fst sampled) \<le> length positions" .
  have "length (fst (fold (extendTip rand centerX) (fst sampled) ([], snd sampled)))
      \<le> 0 + 19 * length (fst sampled)"
    using extendTips_length [OF assms(1), of centerX "fst sampled" "([], snd sampled)"] by simp
  with n have "length (fst (fold (extendTip rand centerX) (fst sampled) ([], snd sampled)))
      \<le> 19 * length positions" by linarith
  with e show ?thesis by simp
qed

text \<open>
  Claim C4.  With draws in \<open>[0, 1)\<close>, root extension emits at most 100,000 particles for
  every seed set (at most 14,500: 50 starts, each at most 29 segments of at most 4
  particles and at most 3 sub-branches of at most 29 segments of at most 2), and every
  invocation of \<open>createRootBranch\<close> has a depth below 2.  On the empty seed set both
  extenders throw before they emit anything.  Branch extension is not recursive: it is a
  plain definition, returns for every seed set, and emits at most 19 particles per seed.
\<close>

theorem extension_bounded:
  assumes "unit_draws rand"
  shows "(positions = [] \<longrightarrow>
            extendRoots rand k positions = Inl TypeError \<and>
            extendBranches rand k' positions = Inl TypeError) \<and>
         (positions \<noteq> [] \<longrightarrow>
            (\<exists>r. extendRoots rand k positions = Inr r \<and>
               length (particleArray r) \<le> 100000 \<and> (\<forall>d\<in>set (callDepths r). d < 2)) \<and>
            (\<exists>b. extendBranches rand k' positions = Inr b \<and>
               length (fst b) \<le> 19 * length positions))"
proof (cases "positions = []")
  case True
  then show ?thesis by (simp add: extendRoots_empty extendBranches_empty)
next
  case False
  obtain r where r: "extendRoots rand k positions = Inr r" "length (particleArray r) \<le> 14500"
      "set (callDepths r) \<subseteq> {0, 1}"
    using extendRoots_bound [OF assms False] by blast
  have "\<forall>d\<in>set (callDepths r). d < 2" using r(3) by auto
  moreover have "length (particleArray r) \<le> 100000" using r(2) by simp
  ultimately have "\<exists>r. extendRoots rand k positions = Inr r \<and>
               length (particleArray r) \<le> 100000 \<and> (\<forall>d\<in>set (callDepths r). d < 2)"
    using r(1) by blast
  with extendBranches_bound [OF assms False, of k'] False show ?thesis by blast
qed

lemma unit_draws_rootDraws: "unit_draws rootDraws"
  by (simp add: unit_draws_def rootDraws_def)

theorem extension_bounded_witness:
  "unit_draws rootDraws \<and>
   (\<exists>r. extendRoots rootDraws 0 bottomSeed = Inr r \<and>
      length (particleArray r) \<le> 100000 \<and> list_all (\<lambda>d. d < 2) (callDepths r)) \<and>
   (\<exists>b. extendBranches rootDraws 0 bottomSeed = Inr b \<and> length (fst b) \<le> 19)"
proof -
  have ne: "bottomSeed \<noteq> []" and n: "length bottomSeed = 1" by (simp_all add: bottomSeed_def)
  from extension_bounded [OF unit_draws_rootDraws, of bottomSeed 0 0] ne n unit_draws_rootDraws
  show ?thesis by (simp add: list_all_iff)
qed

section \<open>The growth order of extension particles\<close>

lemma ringBody_fields:
  "\<exists>x. particleArray (ringBody rand w t a s) = particleArray s @ [x]"
  "draws (ringBody rand w t a s) = draws s + 2"
  by (simp_all add: ringBody_def Let_def)

lemma ring_prefix:
  "\<exists>ys. particleArray (fold (ringBody rand w t) xs s) = particleArray s @ ys"
proof (induction xs arbitrary: s)
  case Nil
  then show ?case by simp
next
  case (Cons a xs)
  obtain ys where "particleArray (fold (ringBody rand w t) xs (ringBody rand w t a s))
      = particleArray (ringBody rand w t a s) @ ys"
    using Cons [of "ringBody rand w t a s"] by blast
  moreover obtain x where "particleArray (ringBody rand w t a s) = particleArray s @ [x]"
    using ringBody_fields(1) by blast
  ultimately show ?case by simp
qed

lemma ring_draws: "draws s \<le> draws (fold (ringBody rand w t) xs s)"
proof (induction xs arbitrary: s)
  case Nil
  then show ?case by simp
next
  case (Cons a xs)
  have "draws (ringBody rand w t a s) \<le> draws (fold (ringBody rand w t) xs (ringBody rand w t a s))"
    by (rule Cons)
  then show ?case by (simp add: ringBody_fields(2))
qed

lemma segment_draws: "draws (snd ws) \<le> draws (snd (segmentBody rand t n i ws))"
  using ring_draws [of "snd ws\<lparr>draws := draws (snd ws) + 3\<rparr>" rand]
  by (simp add: segmentBody_def Let_def) (meson add_leD1 le_trans trans_le_add1)

lemma segments_draws: "draws (snd ws) \<le> draws (snd (fold (segmentBody rand t n) xs ws))"
proof (induction xs arbitrary: ws)
  case Nil
  then show ?case by simp
next
  case (Cons a xs)
  have "draws (snd (segmentBody rand t n a ws))
      \<le> draws (snd (fold (segmentBody rand t n) xs (segmentBody rand t n a ws)))"
    by (rule Cons)
  with segment_draws [of ws rand t n a] show ?case by simp
qed

lemma drawBranch_draws: "draws s + 4 \<le> draws (snd (drawBranch rand p t bx bz s))"
proof -
  obtain w n where "drawBranch rand p t bx bz s =
      fold (segmentBody rand t n) [0..<n] (w, s\<lparr>draws := draws s + 4\<rparr>)"
    by (simp add: drawBranch_def Let_def)
  then show ?thesis
    using segments_draws [of "(w, s\<lparr>draws := draws s + 4\<rparr>)" rand t n "[0..<n]"] by simp
qed

lemma createRootBranch_no_children:
  assumes "\<not> thickness < 0.2" "\<not> 100000 < length (particleArray s)"
    and "\<not> (rand (draws (snd (drawBranch rand p thickness bx bz (s\<lparr>callDepths := callDepths s @ [0]\<rparr>)))) < 0.35 \<and>
        length (particleArray (snd (drawBranch rand p thickness bx bz (s\<lparr>callDepths := callDepths s @ [0]\<rparr>)))) < 80000)"
  shows "createRootBranch rand p 0 thickness bx bz s =
     (snd (drawBranch rand p thickness bx bz (s\<lparr>callDepths := callDepths s @ [0]\<rparr>)))
       \<lparr>draws := draws (snd (drawBranch rand p thickness bx bz (s\<lparr>callDepths := callDepths s @ [0]\<rparr>))) + 1\<rparr>"
proof -
  note unf = createRootBranch.simps [of rand p 0 thickness bx bz s, unfolded Let_def]
  have g: "\<not> (2 \<le> (0::nat) \<or> thickness < 0.2 \<or>
      100000 < length (particleArray (s\<lparr>callDepths := callDepths s @ [0]\<rparr>)))"
    using assms(1,2) by simp
  have d: "(0::nat) < 1" by simp
  show ?thesis
    using unf [unfolded if_not_P [OF g] if_P [OF d] if_not_P [OF assms(3)]] .
qed

lemma segment_prefix:
  "\<exists>ys. particleArray (snd (segmentBody rand t n i ws)) = particleArray (snd ws) @ ys"
  using ring_prefix [of rand _ _ _ "snd ws\<lparr>draws := draws (snd ws) + 3\<rparr>"]
  by (simp add: segmentBody_def Let_def)

lemma segments_prefix:
  "\<exists>ys. particleArray (snd (fold (segmentBody rand t n) xs ws)) = particleArray (snd ws) @ ys"
proof (induction xs arbitrary: ws)
  case Nil
  then show ?case by simp
next
  case (Cons a xs)
  obtain ys where a: "particleArray (snd (fold (segmentBody rand t n) xs (segmentBody rand t n a ws)))
      = particleArray (snd (segmentBody rand t n a ws)) @ ys"
    using Cons [of "segmentBody rand t n a ws"] by blast
  obtain zs where "particleArray (snd (segmentBody rand t n a ws)) = particleArray (snd ws) @ zs"
    using segment_prefix by blast
  with a show ?case by simp
qed

text \<open>The first particle of the root grown from the bottom seed lies below the canvas.\<close>

lemma bottomSeed_first_ring:
  "\<exists>ys. particleArray (snd (segmentBody rootDraws 1 21 0
      (\<lparr>angleX = 0, angleY = - 0.75, angleZ = 0, currentX = 0, currentY = - 511, currentZ = 0\<rparr>,
       \<lparr>particleArray = [], draws = 5, callDepths = [0]\<rparr>)))
     = \<lparr>pos_x = 0, pos_y = - 513.25, pos_z = 0\<rparr> # ys"
proof -
  let ?w' = "\<lparr>angleX = 0, angleY = - 0.75, angleZ = 0, currentX = 0, currentY = - 513.25, currentZ = 0\<rparr>"
  let ?s = "\<lparr>particleArray = [], draws = 8, callDepths = [0]\<rparr>"
  have n: "particlesInRing 1 = 4" by (simp add: particlesInRing_def)
  have "segmentBody rootDraws 1 21 0
      (\<lparr>angleX = 0, angleY = - 0.75, angleZ = 0, currentX = 0, currentY = - 511, currentZ = 0\<rparr>,
       \<lparr>particleArray = [], draws = 5, callDepths = [0]\<rparr>)
     = (?w', fold (ringBody rootDraws ?w' 1) [0..<4] ?s)"
    by (simp add: segmentBody_def Let_def rootDraws_def n)
  moreover have "[0..<4] = 0 # [1..<4]" by (simp add: upt_conv_Cons)
  moreover have "particleArray (ringBody rootDraws ?w' 1 0 ?s) = [\<lparr>pos_x = 0, pos_y = - 513.25, pos_z = 0\<rparr>]"
    by (simp add: ringBody_def Let_def rootDraws_def)
  moreover obtain ys where "particleArray (fold (ringBody rootDraws ?w' 1) [1..<4] (ringBody rootDraws ?w' 1 0 ?s))
      = particleArray (ringBody rootDraws ?w' 1 0 ?s) @ ys"
    using ring_prefix by blast
  ultimately show ?thesis by simp
qed

lemma bottomSeed_drawBranch:
  "\<exists>ys. particleArray (snd (drawBranch rootDraws \<lparr>pos_x = 0, pos_y = - 511, pos_z = 0\<rparr> 1 0 0
      \<lparr>particleArray = [], draws = 1, callDepths = [0]\<rparr>))
     = \<lparr>pos_x = 0, pos_y = - 513.25, pos_z = 0\<rparr> # ys"
proof -
  let ?w = "\<lparr>angleX = 0, angleY = - 0.75, angleZ = 0, currentX = 0, currentY = - 511, currentZ = 0\<rparr>"
  let ?s = "\<lparr>particleArray = [], draws = 5, callDepths = [0]\<rparr>"
  have "drawBranch rootDraws \<lparr>pos_x = 0, pos_y = - 511, pos_z = 0\<rparr> 1 0 0
      \<lparr>particleArray = [], draws = 1, callDepths = [0]\<rparr>
    = fold (segmentBody rootDraws 1 21) [0..<21] (?w, ?s)"
    by (simp add: drawBranch_def Let_def rootDraws_def)
  moreover have "[0..<21] = 0 # [1..<21]" by (simp add: upt_conv_Cons)
  moreover obtain ys where "particleArray (snd (segmentBody rootDraws 1 21 0 (?w, ?s)))
     = \<lparr>pos_x = 0, pos_y = - 513.25, pos_z = 0\<rparr> # ys"
    using bottomSeed_first_ring by blast
  moreover obtain zs where "particleArray (snd (fold (segmentBody rootDraws 1 21) [1..<21]
        (segmentBody rootDraws 1 21 0 (?w, ?s))))
      = particleArray (snd (segmentBody rootDraws 1 21 0 (?w, ?s))) @ zs"
    using segments_prefix by blast
  ultimately show ?thesis by simp
qed

lemma bottomSeed_roots:
  "\<exists>r ys. extendRoots rootDraws 0 bottomSeed = Inr r \<and>
      particleArray r = \<lparr>pos_x = 0, pos_y = - 513.25, pos_z = 0\<rparr> # ys \<and> callDepths r = [0]"
proof -
  let ?p = "\<lparr>pos_x = 0, pos_y = - 511, pos_z = 0\<rparr>"
  let ?init = "\<lparr>particleArray = [], draws = 1, callDepths = []\<rparr>"
  let ?s = "\<lparr>particleArray = [], draws = 1, callDepths = [0]\<rparr>"
  let ?after = "snd (drawBranch rootDraws ?p 1 0 0 ?s)"
  have e: "extendRoots rootDraws 0 bottomSeed = Inr (createRootBranch rootDraws ?p 0 1 0 0 ?init)"
    by (simp add: extendRoots_def bottomSeed_def Let_def rootDraws_def js_or_def)
  have s: "?init\<lparr>callDepths := callDepths ?init @ [0]\<rparr> = ?s" by simp
  obtain ys where ys: "particleArray ?after = \<lparr>pos_x = 0, pos_y = - 513.25, pos_z = 0\<rparr> # ys"
    using bottomSeed_drawBranch by blast
  have cd: "callDepths ?after = [0]"
    using drawBranch_bound [OF unit_draws_rootDraws, of 1 ?p 0 0 ?s] by simp
  have "0 < draws ?after" using drawBranch_draws [of ?s rootDraws ?p 1 0 0] by simp
  then have no: "\<not> (rootDraws (draws ?after) < 0.35 \<and> length (particleArray ?after) < 80000)"
    by (simp add: rootDraws_def)
  have "createRootBranch rootDraws ?p 0 1 0 0 ?init = ?after\<lparr>draws := draws ?after + 1\<rparr>"
    using createRootBranch_no_children [of 1 ?init rootDraws ?p 0 0] no unfolding s by simp
  then show ?thesis using e ys cd by simp
qed

text \<open>The seeds the sampler takes from the tree's canvas have a growth order in \<open>(0, 1]\<close>.\<close>

lemma growthOrderOf_sampled:
  assumes "y < 1024"
  shows "0 < growthOrderOf (mkSeed v treeSamplerConfig rand (j, (y, x))) \<and>
         growthOrderOf (mkSeed v treeSamplerConfig rand (j, (y, x))) \<le> 1"
proof -
  let ?p = "mkSeed v treeSamplerConfig rand (j, (y, x))"
  let ?d = "min (sqrt (pos_x ?p * pos_x ?p + pos_z ?p * pos_z ?p) / 512) 1"
  have y: "pos_y ?p = 512 - real y" by (simp add: mkSeed_def posY_of_def treeSamplerConfig_def)
  have "0 \<le> sqrt (pos_x ?p * pos_x ?p + pos_z ?p * pos_z ?p) / 512" by simp
  then have d: "0 \<le> ?d" "?d \<le> 1" by simp_all
  have ny: "0 < (pos_y ?p + 512) / 1024" "(pos_y ?p + 512) / 1024 \<le> 1"
    using assms unfolding y by simp_all
  have g: "growthOrderOf ?p = (pos_y ?p + 512) / 1024 * 0.6 + ?d * 0.4"
    by (simp add: growthOrderOf_def Let_def)
  have "0 < (pos_y ?p + 512) / 1024 * 0.6" using ny(1) by simp
  moreover have "0 \<le> ?d * 0.4" using d(1) by simp
  moreover have "(pos_y ?p + 512) / 1024 * 0.6 \<le> 0.6" using ny(2) by simp
  moreover have "?d * 0.4 \<le> 0.4" using d(2) by simp
  ultimately show ?thesis unfolding g by linarith
qed

lemma bottomSeed_positions:
  "\<exists>ys. fst (extendedPositions rootDraws 0 bottomSeed) =
      \<lparr>pos_x = 0, pos_y = - 511, pos_z = 0\<rparr> # \<lparr>pos_x = 0, pos_y = - 513.25, pos_z = 0\<rparr> # ys"
proof -
  obtain r ys where r: "extendRoots rootDraws 0 bottomSeed = Inr r"
      "particleArray r = \<lparr>pos_x = 0, pos_y = - 513.25, pos_z = 0\<rparr> # ys"
    using bottomSeed_roots by blast
  have e: "extendedPositions rootDraws 0 bottomSeed =
      (case extendBranches rootDraws (draws r) (bottomSeed @ particleArray r) of
         Inl e \<Rightarrow> (bottomSeed @ particleArray r, draws r)
       | Inr b \<Rightarrow> ((bottomSeed @ particleArray r) @ fst b, snd b))"
    by (simp add: extendedPositions_def r(1) Let_def split: sum.splits)
  show ?thesis
    unfolding e
    by (cases "extendBranches rootDraws (draws r) (bottomSeed @ particleArray r)")
      (simp_all add: r(2) bottomSeed_def)
qed

lemma nth_makeParticles:
  "i < length positions \<Longrightarrow>
     makeParticles cfg rand saplingParticleSet particleExtensions k positions ! i =
       makeParticle cfg rand saplingParticleSet particleExtensions k i (positions ! i)"
  by (simp add: makeParticles_def)

text \<open>
  Claim C2 fails on the code.  From the seed of a dark pixel in the bottom row,
  \<open>extendRoots\<close> grows a root downwards; its first particle is at \<open>y = -513.25\<close>, below the
  canvas, and the particle store gives it the growth order \<open>-3/4096\<close>, outside \<open>[0, 1]\<close>.
\<close>

theorem growthOrder_below_zero:
  "growthOrder (makeParticles cfg rand saplingParticleSet particleExtensions k
      (fst (extendedPositions rootDraws 0 bottomSeed)) ! 1) = - (3 / 4096) \<and>
   growthOrder (makeParticles cfg rand saplingParticleSet particleExtensions k
      (fst (extendedPositions rootDraws 0 bottomSeed)) ! 1) < 0"
proof -
  obtain ys where p: "fst (extendedPositions rootDraws 0 bottomSeed) =
      \<lparr>pos_x = 0, pos_y = - 511, pos_z = 0\<rparr> # \<lparr>pos_x = 0, pos_y = - 513.25, pos_z = 0\<rparr> # ys"
    using bottomSeed_positions by blast
  have "growthOrderOf \<lparr>pos_x = 0, pos_y = - 513.25, pos_z = 0\<rparr> = - (3 / 4096)"
    by (simp add: growthOrderOf_def Let_def)
  then show ?thesis
    unfolding p by (simp add: nth_makeParticles makeParticle_def Let_def)
qed

section \<open>The growth frames\<close>

lemma fold_upt_invariant:
  assumes "P 0 s" and "\<And>i s. i < n \<Longrightarrow> P i s \<Longrightarrow> P (Suc i) (f i s)"
  shows "P n (fold f [0..<n] s)"
proof -
  have "m \<le> n \<Longrightarrow> P m (fold f [0..<m] s)" for m
  proof (induction m)
    case 0
    then show ?case using assms(1) by simp
  next
    case (Suc m)
    then show ?case using assms(2) [of m "fold f [0..<m] s"] by simp
  qed
  then show ?thesis by simp
qed

lemma growthForEach_eq:
  assumes "length oa = length ps"
  shows "growthForEach progress (ps, oa) =
           (map (\<lambda>p. p\<lparr>currentOpacity := growthOpacity progress p\<rparr>) ps,
            map (growthOpacity progress) ps)"
proof -
  let ?n = "length ps"
  let ?P = "\<lambda>j s. length (fst s) = ?n \<and> length (snd s) = ?n \<and>
      (\<forall>i<?n. fst s ! i = (if i < j then (ps ! i)\<lparr>currentOpacity := growthOpacity progress (ps ! i)\<rparr> else ps ! i)) \<and>
      (\<forall>i<?n. snd s ! i = (if i < j then growthOpacity progress (ps ! i) else oa ! i))"
  have "?P ?n (fold (growthBody progress) [0..<?n] (ps, oa))"
  proof (rule fold_upt_invariant [where P = ?P])
    show "?P 0 (ps, oa)" using assms by simp
  next
    fix i s assume "i < ?n" "?P i s"
    then show "?P (Suc i) (growthBody progress i s)"
      by (auto simp: growthBody_def Let_def nth_list_update less_Suc_eq)
  qed
  then have "fst (fold (growthBody progress) [0..<?n] (ps, oa)) =
        map (\<lambda>p. p\<lparr>currentOpacity := growthOpacity progress p\<rparr>) ps"
    and "snd (fold (growthBody progress) [0..<?n] (ps, oa)) = map (growthOpacity progress) ps"
    by (auto intro!: nth_equalityI)
  then show ?thesis
    by (simp add: growthForEach_def prod_eq_iff)
qed

lemma visibleForEach_eq:
  assumes "length oa = length ps"
  shows "visibleForEach (ps, oa) =
           (map (\<lambda>p. p\<lparr>currentOpacity := 1\<rparr>) ps, replicate (length ps) 1)"
proof -
  let ?n = "length ps"
  let ?P = "\<lambda>j s. length (fst s) = ?n \<and> length (snd s) = ?n \<and>
      (\<forall>i<?n. fst s ! i = (if i < j then (ps ! i)\<lparr>currentOpacity := 1\<rparr> else ps ! i)) \<and>
      (\<forall>i<?n. snd s ! i = (if i < j then 1 else oa ! i))"
  have "?P ?n (fold visibleBody [0..<?n] (ps, oa))"
  proof (rule fold_upt_invariant [where P = ?P])
    show "?P 0 (ps, oa)" using assms by simp
  next
    fix i s assume "i < ?n" "?P i s"
    then show "?P (Suc i) (visibleBody i s)"
      by (auto simp: visibleBody_def nth_list_update less_Suc_eq)
  qed
  then have "fst (fold visibleBody [0..<?n] (ps, oa)) = map (\<lambda>p. p\<lparr>currentOpacity := 1\<rparr>) ps"
    and "snd (fold visibleBody [0..<?n] (ps, oa)) = replicate ?n 1"
    by (auto intro!: nth_equalityI)
  then show ?thesis
    by (simp add: visibleForEach_def prod_eq_iff)
qed

text \<open>\<open>animateGrowth\<close> on a state with a store, in closed form.\<close>

lemma animateGrowth_running:
  assumes "particleSystem st = Some sys" "particles st \<noteq> []"
    "length (opacityArray sys) = length (particles st)"
    "growthProgress cfg startTime now < 1"
  shows "animateGrowth cfg startTime now st =
     st\<lparr>particles := map (\<lambda>p. p\<lparr>currentOpacity := growthOpacity (growthProgress cfg startTime now) p\<rparr>) (particles st),
        particleSystem := Some (sys\<lparr>opacityArray := map (growthOpacity (growthProgress cfg startTime now)) (particles st)\<rparr>),
        growthCallbacks := growthCallbacks st @ [startTime]\<rparr>"
  using assms by (simp add: animateGrowth_def Let_def growthForEach_eq)

lemma animateGrowth_complete:
  assumes "particleSystem st = Some sys" "particles st \<noteq> []"
    "length (opacityArray sys) = length (particles st)"
    "\<not> growthProgress cfg startTime now < 1"
  shows "animateGrowth cfg startTime now st =
     st\<lparr>particles := map (\<lambda>p. p\<lparr>currentOpacity := 1\<rparr>) (particles st),
        particleSystem := Some (sys\<lparr>opacityArray := replicate (length (particles st)) 1\<rparr>)\<rparr>"
  using assms by (simp add: animateGrowth_def Let_def growthForEach_eq visibleForEach_eq o_def)




lemma growthFrame_single:
  "growthCallbacks st = [startTime] \<Longrightarrow>
     growthFrame cfg now st = animateGrowth cfg startTime now (st\<lparr>growthCallbacks := []\<rparr>)"
  by (simp add: growthFrame_def)

lemma storeOk_SomeD:
  assumes "storeOk st" "growthCallbacks st = [startTime]"
  obtains sys where "particleSystem st = Some sys" "particles st \<noteq> []"
    "length (opacityArray sys) = length (particles st)"
    "length (positionArray sys) = 3 * length (particles st)" "isGrown st"
  using assms by (auto simp: storeOk_def split: option.splits)


section \<open>The frames of the animation loop\<close>

lemma flowStep_sameBaseline: "sameBaseline (fst (flowStep cfg rand (p, k))) p"
  by (simp add: flowStep_def sameBaseline_def Let_def)

lemma slashStep_sameBaseline: "sameBaseline (slashStep cfg mx my vx vy p) p"
  by (simp add: slashStep_def windReturn_def sameBaseline_def Let_def)

lemma sameBaseline_trans: "sameBaseline p q \<Longrightarrow> sameBaseline q r \<Longrightarrow> sameBaseline p r"
  by (simp add: sameBaseline_def)

lemma sameBaseline_refl: "sameBaseline p p"
  by (simp add: sameBaseline_def)

lemma positionAt_write_same:
  "i * 3 + 2 < length positions \<Longrightarrow> positionAt (writeTreePosition i p positions) i = treeDisplayed p"
  by (simp add: positionAt_def writeTreePosition_def treeDisplayed_def)

lemma positionAt_write_other:
  "i \<noteq> j \<Longrightarrow> positionAt (writeTreePosition j p positions) i = positionAt positions i"
  by (simp add: positionAt_def writeTreePosition_def) 

lemma length_writeTreePosition: "length (writeTreePosition i p positions) = length positions"
  by (simp add: writeTreePosition_def)

text \<open>A \<open>forEach\<close> of the animation loop that moves the particles selected by \<open>sel\<close>.\<close>

lemma tree_forEach:
  fixes sel :: "particle \<Rightarrow> bool" and k :: nat
  assumes body: "\<And>i s. body i s = (if sel (fst s ! i) then moveParticle cfg rand mx my vx vy i s else s)"
    and len: "length positions = 3 * length ps"
  defines "r \<equiv> fold body [0..<length ps] (ps, positions, k)"
  shows "length (fst r) = length ps \<and> length (fst (snd r)) = length positions \<and>
     (\<forall>i<length ps.
        sameBaseline (fst r ! i) (ps ! i) \<and>
        (if sel (ps ! i) then positionAt (fst (snd r)) i = treeDisplayed (fst r ! i)
         else fst r ! i = ps ! i \<and> positionAt (fst (snd r)) i = positionAt positions i))"
proof -
  let ?n = "length ps"
  let ?P = "\<lambda>j (s :: anim_state). length (fst s) = ?n \<and> length (fst (snd s)) = length positions \<and>
     (\<forall>i<?n. j \<le> i \<longrightarrow> fst s ! i = ps ! i \<and> positionAt (fst (snd s)) i = positionAt positions i) \<and>
     (\<forall>i<j. sameBaseline (fst s ! i) (ps ! i) \<and>
        (if sel (ps ! i) then positionAt (fst (snd s)) i = treeDisplayed (fst s ! i)
         else fst s ! i = ps ! i \<and> positionAt (fst (snd s)) i = positionAt positions i))"
  have "?P ?n (fold body [0..<?n] (ps, positions, k))"
  proof (rule fold_upt_invariant [where P = ?P])
    show "?P 0 (ps, positions, k)" by simp
  next
    fix j s assume j: "j < ?n" and P: "?P j s"
    have inb: "j * 3 + 2 < length (fst (snd s))" using j P len by simp
    show "?P (Suc j) (body j s)"
    proof (cases "sel (fst s ! j)")
      case False
      then have "body j s = s" by (simp add: body)
      moreover have "\<not> sel (ps ! j)" using False P j by simp
      ultimately show ?thesis using P j by (auto simp: less_Suc_eq sameBaseline_refl)
    next
      case True
      then have selj: "sel (ps ! j)" using P j by simp
      let ?p = "slashStep cfg mx my vx vy (fst (flowStep cfg rand (fst s ! j, snd (snd s))))"
      have b: "body j s = ((fst s)[j := ?p], writeTreePosition j ?p (fst (snd s)),
                  snd (flowStep cfg rand (fst s ! j, snd (snd s))))"
        using True by (simp add: body moveParticle_def Let_def)
      have sb: "sameBaseline ?p (ps ! j)"
        using sameBaseline_trans [OF slashStep_sameBaseline flowStep_sameBaseline] P j by auto
      show ?thesis
        unfolding b using P j selj sb inb
        by (auto simp: less_Suc_eq nth_list_update positionAt_write_same positionAt_write_other
            length_writeTreePosition)
    qed
  qed
  then show ?thesis unfolding r_def by (auto simp: sameBaseline_refl)
qed






text \<open>The frames on a state with a store.\<close>

lemma updateFullTreeFlow_frame:
  assumes sys: "particleSystem st = Some sys" and ne: "particles st \<noteq> []"
    and len: "length (positionArray sys) = 3 * length (particles st)"
    and en: "flowAnimationEnabled st"
  shows "\<exists>pos'. particleSystem (updateFullTreeFlow cfg rand st) = Some (sys\<lparr>positionArray := pos'\<rparr>) \<and>
     length pos' = length (positionArray sys) \<and>
     length (particles (updateFullTreeFlow cfg rand st)) = length (particles st) \<and>
     (\<forall>i<length (particles st).
        sameBaseline (particles (updateFullTreeFlow cfg rand st) ! i) (particles st ! i) \<and>
        positionAt pos' i = treeDisplayed (particles (updateFullTreeFlow cfg rand st) ! i))"
proof -
  let ?r = "fold (flowBody cfg rand (mouseWorldX_of st) (mouseWorldY_of st)
                       (mouseVelocityX st) (mouseVelocityY st))
                 [0..<length (particles st)] (particles st, positionArray sys, randomCalls st)"
  have upd: "updateFullTreeFlow cfg rand st = storeAnim (st\<lparr>flowInitialized := True\<rparr>) sys ?r"
    using sys ne en by (simp add: updateFullTreeFlow_def)
  have "length (fst ?r) = length (particles st) \<and> length (fst (snd ?r)) = length (positionArray sys) \<and>
     (\<forall>i<length (particles st).
        sameBaseline (fst ?r ! i) (particles st ! i) \<and>
        (if True then positionAt (fst (snd ?r)) i = treeDisplayed (fst ?r ! i)
         else fst ?r ! i = particles st ! i \<and> positionAt (fst (snd ?r)) i = positionAt (positionArray sys) i))"
    by (rule tree_forEach [where sel = "\<lambda>_. True", OF _ len]) (simp add: flowBody_def)
  then show ?thesis
    unfolding upd by (intro exI [of _ "fst (snd ?r)"]) (simp add: storeAnim_def)
qed

lemma updateSaplingAnimation_frame:
  assumes sys: "particleSystem st = Some sys" and ne: "particles st \<noteq> []"
    and len: "length (positionArray sys) = 3 * length (particles st)"
    and en: "saplingAnimationEnabled st"
  shows "\<exists>pos'. particleSystem (updateSaplingAnimation cfg rand st) = Some (sys\<lparr>positionArray := pos'\<rparr>) \<and>
     length pos' = length (positionArray sys) \<and>
     length (particles (updateSaplingAnimation cfg rand st)) = length (particles st) \<and>
     (\<forall>i<length (particles st).
        sameBaseline (particles (updateSaplingAnimation cfg rand st) ! i) (particles st ! i) \<and>
        (if isSaplingParticle (particles st ! i)
         then positionAt pos' i = treeDisplayed (particles (updateSaplingAnimation cfg rand st) ! i)
         else particles (updateSaplingAnimation cfg rand st) ! i = particles st ! i \<and>
              positionAt pos' i = positionAt (positionArray sys) i))"
proof -
  let ?r = "fold (saplingBody cfg rand (mouseWorldX_of st) (mouseWorldY_of st)
                       (mouseVelocityX st) (mouseVelocityY st))
                 [0..<length (particles st)] (particles st, positionArray sys, randomCalls st)"
  have upd: "updateSaplingAnimation cfg rand st = storeAnim (st\<lparr>saplingFlowInitialized := True\<rparr>) sys ?r"
    using sys ne en by (simp add: updateSaplingAnimation_def)
  have "length (fst ?r) = length (particles st) \<and> length (fst (snd ?r)) = length (positionArray sys) \<and>
     (\<forall>i<length (particles st).
        sameBaseline (fst ?r ! i) (particles st ! i) \<and>
        (if isSaplingParticle (particles st ! i) then positionAt (fst (snd ?r)) i = treeDisplayed (fst ?r ! i)
         else fst ?r ! i = particles st ! i \<and> positionAt (fst (snd ?r)) i = positionAt (positionArray sys) i))"
    by (rule tree_forEach [where sel = isSaplingParticle, OF _ len]) (simp add: saplingBody_def)
  then show ?thesis
    unfolding upd by (intro exI [of _ "fst (snd ?r)"]) (simp add: storeAnim_def)
qed








section \<open>The growth state machine\<close>

text \<open>\<open>storeOk\<close> holds initially and is kept by every event.\<close>

lemma storeOk_initial: "storeOk (initialEngine w h)"
  by (simp add: storeOk_def initialEngine_def)

lemma animateGrowth_cases:
  assumes "particleSystem st = Some sys" "particles st \<noteq> []"
    "length (opacityArray sys) = length (particles st)"
  shows "\<exists>ps oa cbs. animateGrowth cfg startTime now st =
            st\<lparr>particles := ps, particleSystem := Some (sys\<lparr>opacityArray := oa\<rparr>),
               growthCallbacks := cbs\<rparr> \<and>
          length ps = length (particles st) \<and> length oa = length (particles st) \<and>
          (cbs = growthCallbacks st @ [startTime] \<or> cbs = growthCallbacks st)"
proof (cases "growthProgress cfg startTime now < 1")
  case True
  show ?thesis
    unfolding animateGrowth_running [OF assms True]
    by (intro exI conjI) (rule refl, simp_all)
next
  case False
  have "animateGrowth cfg startTime now st =
     st\<lparr>particles := map (\<lambda>p. p\<lparr>currentOpacity := 1\<rparr>) (particles st),
        particleSystem := Some (sys\<lparr>opacityArray := replicate (length (particles st)) 1\<rparr>),
        growthCallbacks := growthCallbacks st\<rparr>"
    unfolding animateGrowth_complete [OF assms False] by simp
  then show ?thesis
    by (intro exI conjI) (assumption, simp_all)
qed

lemma storeOk_animateGrowth:
  assumes "storeOk st" "growthCallbacks st = []" "isGrown st"
  shows "storeOk (animateGrowth cfg startTime now st)"
proof (cases "particleSystem st")
  case None
  then show ?thesis using assms by (simp add: animateGrowth_def)
next
  case (Some sys)
  then have p: "particles st \<noteq> []" "length (opacityArray sys) = length (particles st)"
    "length (positionArray sys) = 3 * length (particles st)"
    using assms(1) by (simp_all add: storeOk_def)
  from animateGrowth_cases [OF Some p(1,2), of cfg startTime now]
  obtain ps oa cbs where r: "animateGrowth cfg startTime now st =
            st\<lparr>particles := ps, particleSystem := Some (sys\<lparr>opacityArray := oa\<rparr>),
               growthCallbacks := cbs\<rparr>"
          "length ps = length (particles st)" "length oa = length (particles st)"
          "cbs = growthCallbacks st @ [startTime] \<or> cbs = growthCallbacks st"
    by blast
  show ?thesis
    unfolding r(1) using r(2-4) p assms Some by (auto simp: storeOk_def)
qed

lemma storeOk_growTree: "storeOk st \<Longrightarrow> storeOk (growTree cfg startTime now st)"
proof -
  assume ok: "storeOk st"
  show ?thesis
  proof (cases "isGrown st")
    case True
    then show ?thesis using ok by (simp add: growTree_def)
  next
    case False
    let ?st = "st\<lparr>isGrown := True, saplingAnimationEnabled := False, flowAnimationEnabled := True\<rparr>"
    have "storeOk ?st" "growthCallbacks ?st = []" "isGrown ?st"
      using ok False by (auto simp: storeOk_def split: option.splits)
    then have "storeOk (animateGrowth cfg startTime now ?st)" by (rule storeOk_animateGrowth)
    then show ?thesis using False by (simp add: growTree_def)
  qed
qed

lemma storeOk_growthFrame: "storeOk st \<Longrightarrow> storeOk (growthFrame cfg now st)"
proof -
  assume ok: "storeOk st"
  show ?thesis
  proof (cases "growthCallbacks st")
    case Nil
    then have "growthFrame cfg now st = st" by (simp add: growthFrame_def)
    then show ?thesis using ok by simp
  next
    case (Cons s rest)
    then have cb: "growthCallbacks st = [s]" using ok by (simp add: storeOk_def)
    let ?st = "st\<lparr>growthCallbacks := []\<rparr>"
    have "storeOk ?st" "growthCallbacks ?st = []" "isGrown ?st"
      using ok cb by (auto simp: storeOk_def split: option.splits)
    then have "storeOk (animateGrowth cfg s now ?st)" by (rule storeOk_animateGrowth)
    then show ?thesis using growthFrame_single [OF cb] by simp
  qed
qed

lemma storeAnim_fields:
  "growthCallbacks (storeAnim st sys s) = growthCallbacks st"
  "isGrown (storeAnim st sys s) = isGrown st"
  "saplingAnimationEnabled (storeAnim st sys s) = saplingAnimationEnabled st"
  "flowAnimationEnabled (storeAnim st sys s) = flowAnimationEnabled st"
  by (simp_all add: storeAnim_def)

lemma updateFullTreeFlow_fields:
  "growthCallbacks (updateFullTreeFlow cfg rand st) = growthCallbacks st"
  "isGrown (updateFullTreeFlow cfg rand st) = isGrown st"
  "saplingAnimationEnabled (updateFullTreeFlow cfg rand st) = saplingAnimationEnabled st"
  "flowAnimationEnabled (updateFullTreeFlow cfg rand st) = flowAnimationEnabled st"
  by (simp_all add: updateFullTreeFlow_def storeAnim_fields split: option.splits)

lemma updateSaplingAnimation_fields:
  "growthCallbacks (updateSaplingAnimation cfg rand st) = growthCallbacks st"
  "isGrown (updateSaplingAnimation cfg rand st) = isGrown st"
  "saplingAnimationEnabled (updateSaplingAnimation cfg rand st) = saplingAnimationEnabled st"
  "flowAnimationEnabled (updateSaplingAnimation cfg rand st) = flowAnimationEnabled st"
  by (simp_all add: updateSaplingAnimation_def storeAnim_fields split: option.splits)

lemma animate_fields:
  "growthCallbacks (animate cfg rand st) = growthCallbacks st"
  "isGrown (animate cfg rand st) = isGrown st"
  "saplingAnimationEnabled (animate cfg rand st) = saplingAnimationEnabled st"
  "flowAnimationEnabled (animate cfg rand st) = flowAnimationEnabled st"
  by (simp_all add: animate_def updateFullTreeFlow_fields updateSaplingAnimation_fields)

lemma animate_cases:
  assumes sys: "particleSystem st = Some sys" and ne: "particles st \<noteq> []"
    and len: "length (positionArray sys) = 3 * length (particles st)"
  shows "\<exists>pos'. particleSystem (animate cfg rand st) = Some (sys\<lparr>positionArray := pos'\<rparr>) \<and>
      length pos' = length (positionArray sys) \<and>
      length (particles (animate cfg rand st)) = length (particles st) \<and>
      (\<forall>i<length (particles st). sameBaseline (particles (animate cfg rand st) ! i) (particles st ! i))"
proof (cases "saplingAnimationEnabled st")
  case True
  from updateSaplingAnimation_frame [OF sys ne len True, of cfg rand] show ?thesis
    using True by (auto simp: animate_def)
next
  case False
  show ?thesis
  proof (cases "flowAnimationEnabled st")
    case True
    from updateFullTreeFlow_frame [OF sys ne len True, of cfg rand] show ?thesis
      using False True by (auto simp: animate_def)
  next
    case nf: False
    have "animate cfg rand st = st" using False nf by (simp add: animate_def)
    then show ?thesis
      using sys by (intro exI [of _ "positionArray sys"]) (simp add: sameBaseline_refl)
  qed
qed

lemma animate_None: "particleSystem st = None \<Longrightarrow> animate cfg rand st = st"
  by (simp add: animate_def updateFullTreeFlow_def updateSaplingAnimation_def)

lemma storeOk_animate: "storeOk st \<Longrightarrow> storeOk (animate cfg rand st)"
proof -
  assume ok: "storeOk st"
  show ?thesis
  proof (cases "particleSystem st")
    case None
    then show ?thesis using ok by (simp add: animate_None)
  next
    case (Some sys)
    then have p: "particles st \<noteq> []" "length (opacityArray sys) = length (particles st)"
      "length (positionArray sys) = 3 * length (particles st)"
      using ok by (simp_all add: storeOk_def)
    from animate_cases [OF Some p(1,3), of cfg rand] obtain pos' where
      r: "particleSystem (animate cfg rand st) = Some (sys\<lparr>positionArray := pos'\<rparr>)"
        "length pos' = length (positionArray sys)"
        "length (particles (animate cfg rand st)) = length (particles st)"
      by blast
    have "particles (animate cfg rand st) \<noteq> []" using r(3) p(1) by auto
    then show ?thesis
      using ok r p Some by (simp add: storeOk_def animate_fields)
  qed
qed

lemma storeOk_step: "storeOk st \<Longrightarrow> storeOk (step cfg rand e st)"
proof (cases e)
  case (Click t0 t1)
  assume "storeOk st"
  then show ?thesis using Click by (simp add: clickHandler_def storeOk_growTree)
next
  case (GrowthFrame now)
  assume "storeOk st"
  then show ?thesis using GrowthFrame by (simp add: storeOk_growthFrame)
next
  case AnimFrame
  assume "storeOk st"
  then show ?thesis using AnimFrame by (simp add: storeOk_animate)
next
  case (MouseMove cx cy)
  assume "storeOk st"
  then show ?thesis using MouseMove by (simp add: storeOk_def mouseMove_def split: option.splits)
next
  case (Build ps)
  assume "storeOk st"
  then show ?thesis using Build by (auto simp: storeOk_def buildStore_def length_concat o_def sum_list_triv split: option.splits)
qed

lemma storeOk_run: "storeOk st \<Longrightarrow> storeOk (run cfg rand es st)"
  unfolding run_def by (induction es arbitrary: st) (simp_all add: storeOk_step)

lemma isGrown_step: "isGrown st \<Longrightarrow> isGrown (step cfg rand e st)"
proof (cases e)
  case (GrowthFrame now)
  assume g: "isGrown st"
  have a: "isGrown (animateGrowth cfg s now s') = isGrown s'" for s s'
    by (simp add: animateGrowth_def Let_def split: option.splits)
  have "isGrown (fold (\<lambda>startTime s. animateGrowth cfg startTime now s) cbs s') = isGrown s'" for cbs s'
    by (induction cbs arbitrary: s') (simp_all add: a)
  then show ?thesis using g GrowthFrame by (simp add: growthFrame_def)
qed (simp_all add: clickHandler_def animate_fields mouseMove_def buildStore_def)

lemma isGrown_run: "isGrown st \<Longrightarrow> isGrown (run cfg rand es st)"
  unfolding run_def by (induction es arbitrary: st) (simp_all add: isGrown_step)

lemma grownWith_step:
  assumes "grownWith n st"
  shows "grownWith n (step cfg rand e st)"
proof (cases e)
  case (Click t0 t1)
  then show ?thesis using assms by (simp add: clickHandler_def grownWith_def)
next
  case (GrowthFrame now)
  have "growthFrame cfg now st = st" using assms by (simp add: growthFrame_def grownWith_def)
  then show ?thesis using assms GrowthFrame by simp
next
  case AnimFrame
  from assms obtain sys where sys: "particleSystem st = Some sys" "opacityArray sys = replicate n 1"
    and ok: "storeOk st" and ops: "map currentOpacity (particles st) = replicate n 1"
    by (auto simp: grownWith_def)
  have p: "particles st \<noteq> []" "length (positionArray sys) = 3 * length (particles st)"
    using ok sys by (simp_all add: storeOk_def)
  from animate_cases [OF sys(1) p, of cfg rand] obtain pos' where
    r: "particleSystem (animate cfg rand st) = Some (sys\<lparr>positionArray := pos'\<rparr>)"
      "length (particles (animate cfg rand st)) = length (particles st)"
      "\<forall>i<length (particles st). sameBaseline (particles (animate cfg rand st) ! i) (particles st ! i)"
    by blast
  have "map currentOpacity (particles (animate cfg rand st)) = map currentOpacity (particles st)"
    using r(2,3) by (auto intro!: nth_equalityI simp: sameBaseline_def)
  then show ?thesis
    using assms AnimFrame r(1) sys storeOk_animate [OF ok, of cfg rand]
    by (simp add: grownWith_def animate_fields)
next
  case (MouseMove cx cy)
  then show ?thesis
    using assms storeOk_step [of st cfg rand e] by (auto simp: grownWith_def mouseMove_def)
next
  case (Build ps)
  then show ?thesis using assms by (auto simp: grownWith_def)
qed

lemma grownWith_run: "grownWith n st \<Longrightarrow> grownWith n (run cfg rand es st)"
  unfolding run_def by (induction es arbitrary: st) (simp_all add: grownWith_step)

lemma growthProgress_done:
  assumes "0 < growthDuration cfg" "growthDuration cfg * 1000 \<le> now - startTime"
  shows "\<not> growthProgress cfg startTime now < 1"
proof -
  have "1 \<le> (now - startTime) / (growthDuration cfg * 1000)"
    using assms by (simp add: le_divide_eq)
  then show ?thesis by (simp add: growthProgress_def Let_def)
qed

lemma growthFrame_completes:
  assumes ok: "storeOk st" and cb: "growthCallbacks st = [startTime]"
    and dur: "0 < growthDuration cfg" and fin: "growthDuration cfg * 1000 \<le> now - startTime"
  shows "grownWith (length (particles st)) (growthFrame cfg now st)"
proof -
  obtain sys where sys: "particleSystem st = Some sys" "particles st \<noteq> []"
      "length (opacityArray sys) = length (particles st)" and g: "isGrown st"
    using storeOk_SomeD [OF ok cb] by blast
  let ?st0 = "st\<lparr>growthCallbacks := []\<rparr>"
  have sys0: "particleSystem ?st0 = Some sys" "particles ?st0 \<noteq> []"
      "length (opacityArray sys) = length (particles ?st0)"
    using sys by simp_all
  have frame: "growthFrame cfg now st =
     ?st0\<lparr>particles := map (\<lambda>p. p\<lparr>currentOpacity := 1\<rparr>) (particles ?st0),
        particleSystem := Some (sys\<lparr>opacityArray := replicate (length (particles ?st0)) 1\<rparr>)\<rparr>"
    using animateGrowth_complete [OF sys0 growthProgress_done [OF dur fin]]
      growthFrame_single [OF cb] by simp
  have "storeOk (growthFrame cfg now st)" by (rule storeOk_growthFrame [OF ok])
  then show ?thesis
    using g unfolding frame by (simp add: grownWith_def o_def map_replicate_const)
qed

text \<open>
  When the growth was triggered with the store built (a growth callback is pending), the
  frame that runs once the elapsed time has reached the growth duration leaves every
  particle and every entry of the opacity buffer at 1 and no callback pending, so the
  state is GROWN; and whatever happens afterwards (clicks, frames, mouse moves), the
  opacities stay at 1 and no growth callback is ever pending again, so no opacity is
  computed again.
\<close>

lemma growth_completes_when_built:
  assumes ok: "storeOk st" and cb: "growthCallbacks st = [startTime]"
    and dur: "0 < growthDuration cfg" and fin: "growthDuration cfg * 1000 \<le> now - startTime"
  shows "let st' = run cfg rand es (growthFrame cfg now st)
         in phaseOf st' = GROWN \<and> growthCallbacks st' = [] \<and>
            length (particles st') = length (particles st) \<and>
            list_all (\<lambda>p. currentOpacity p = 1) (particles st') \<and>
            (\<exists>sys'. particleSystem st' = Some sys' \<and>
               opacityArray sys' = replicate (length (particles st)) 1)"
proof -
  let ?n = "length (particles st)"
  have g: "grownWith ?n (run cfg rand es (growthFrame cfg now st))"
    by (rule grownWith_run [OF growthFrame_completes [OF ok cb dur fin]])
  then have m: "map currentOpacity (particles (run cfg rand es (growthFrame cfg now st))) = replicate ?n 1"
    by (simp add: grownWith_def)
  then have len: "length (particles (run cfg rand es (growthFrame cfg now st))) = ?n"
    by (metis length_map length_replicate)
  have "\<forall>p\<in>set (particles (run cfg rand es (growthFrame cfg now st))). currentOpacity p = 1"
  proof
    fix p assume "p \<in> set (particles (run cfg rand es (growthFrame cfg now st)))"
    then have "currentOpacity p \<in> set (map currentOpacity (particles (run cfg rand es (growthFrame cfg now st))))"
      by simp
    then show "currentOpacity p = 1" unfolding m by simp
  qed
  then show ?thesis
    using g len by (simp add: Let_def grownWith_def phaseOf_def list_all_iff)
qed

text \<open>
  Claim C7.  In every state the page reaches, at most one growth callback is pending,
  also after a call of \<open>growTree\<close>.  \<open>growTree\<close> leaves \<open>isGrown\<close> set; once it is set,
  \<open>growTree\<close> and the click handler return the state unchanged, and \<open>isGrown\<close> stays set
  whatever happens.
\<close>

theorem growTree_idempotent:
  "let st = run cfg rand es (initialEngine w h)
   in length (growthCallbacks st) \<le> 1 \<and>
      isGrown (growTree cfg startTime now st) \<and>
      length (growthCallbacks (growTree cfg startTime now st)) \<le> 1 \<and>
      (isGrown st \<longrightarrow>
         growTree cfg startTime now st = st \<and>
         step cfg rand (Click startTime now) st = st \<and>
         isGrown (run cfg rand es' st))"
proof -
  let ?st = "run cfg rand es (initialEngine w h)"
  have ok: "storeOk ?st" by (rule storeOk_run [OF storeOk_initial])
  have a: "isGrown (animateGrowth cfg s t s') = isGrown s'" for s t s'
    by (simp add: animateGrowth_def Let_def split: option.splits)
  have "isGrown (growTree cfg startTime now ?st)"
    by (simp add: growTree_def a)
  moreover have "length (growthCallbacks (growTree cfg startTime now ?st)) \<le> 1"
    using storeOk_growTree [OF ok, of cfg startTime now] by (simp add: storeOk_def)
  moreover have "length (growthCallbacks ?st) \<le> 1" using ok by (simp add: storeOk_def)
  moreover have "isGrown ?st \<Longrightarrow> growTree cfg startTime now ?st = ?st"
    by (simp add: growTree_def)
  moreover have "isGrown ?st \<Longrightarrow> step cfg rand (Click startTime now) ?st = ?st"
    by (simp add: clickHandler_def)
  moreover have "isGrown ?st \<Longrightarrow> isGrown (run cfg rand es' ?st)"
    by (rule isGrown_run)
  ultimately show ?thesis by (simp add: Let_def)
qed

lemma growExample_eq:
  "growExample =
     (initialEngine 0 200)
       \<lparr>isGrown := True, flowAnimationEnabled := True, saplingAnimationEnabled := False,
        particles := [exampleParticle, hiddenParticle],
        particleSystem := Some \<lparr>positionArray = [0, 0, 0, 0, 0, 0], opacityArray = [1, 0]\<rparr>,
        growthCallbacks := [0]\<rparr>"
  by (simp add: growExample_def run_def clickHandler_def growTree_def animateGrowth_def
      buildStore_def initialEngine_def growthProgress_def treeCONFIG_def growthForEach_def
      growthBody_def growthOpacity_def exampleParticle_def hiddenParticle_def Let_def)

lemma storeOk_growExample: "storeOk growExample"
  unfolding growExample_def by (rule storeOk_run [OF storeOk_initial])


lemma growth_completes_when_built_example:
  "phaseOf (run treeCONFIG zeroDraws [AnimFrame, Click 20000 20000, GrowthFrame 20016]
      (growthFrame treeCONFIG 10000 growExample)) = GROWN \<and>
   list_all (\<lambda>p. currentOpacity p = 1)
     (particles (run treeCONFIG zeroDraws [AnimFrame, Click 20000 20000, GrowthFrame 20016]
        (growthFrame treeCONFIG 10000 growExample))) \<and>
   length (particles (run treeCONFIG zeroDraws [AnimFrame, Click 20000 20000, GrowthFrame 20016]
        (growthFrame treeCONFIG 10000 growExample))) = 2 \<and>
   (\<exists>sys'. particleSystem (run treeCONFIG zeroDraws [AnimFrame, Click 20000 20000, GrowthFrame 20016]
        (growthFrame treeCONFIG 10000 growExample)) = Some sys' \<and> opacityArray sys' = [1, 1])"
proof -
  have cb: "growthCallbacks growExample = [0]" by (simp add: growExample_eq)
  have dur: "0 < growthDuration treeCONFIG" by (simp add: treeCONFIG_def)
  have fin: "growthDuration treeCONFIG * 1000 \<le> 10000 - 0" by (simp add: treeCONFIG_def)
  have n: "length (particles growExample) = 2" by (simp add: growExample_eq)
  from growth_completes_when_built [OF storeOk_growExample cb dur fin, of zeroDraws
      "[AnimFrame, Click 20000 20000, GrowthFrame 20016]"]
  show ?thesis
    by (simp add: Let_def n numeral_2_eq_2)
qed

theorem growTree_idempotent_witness:
  "isGrown growExample \<and> length (growthCallbacks growExample) \<le> 1 \<and>
   growTree treeCONFIG 7000 7000 growExample = growExample \<and>
   step treeCONFIG zeroDraws (Click 7000 7000) growExample = growExample \<and>
   isGrown (run treeCONFIG zeroDraws [GrowthFrame 7016, Click 8000 8000, GrowthFrame 12000] growExample)"
proof -
  have g: "isGrown growExample" by (simp add: growExample_eq)
  from growTree_idempotent [of treeCONFIG zeroDraws "[Build [exampleParticle, hiddenParticle], Click 0 0]"
      0 200 7000 7000 "[GrowthFrame 7016, Click 8000 8000, GrowthFrame 12000]"] g
  show ?thesis
    by (simp add: Let_def growExample_def [symmetric])
qed

text \<open>
  A click that comes before the image: \<open>growTree\<close> sets \<open>isGrown\<close>, the first run of
  \<open>animateGrowth\<close> returns at its guard without asking for a frame, and the store built
  afterwards keeps its hidden particles hidden.
\<close>

lemma earlyClick_never_grows:
  "isGrown earlyClickExample \<and> growthCallbacks earlyClickExample = [] \<and>
   phaseOf earlyClickExample = GROWN \<and>
   map currentOpacity (particles earlyClickExample) = [1, 0] \<and>
   step treeCONFIG rand (GrowthFrame now) earlyClickExample = earlyClickExample \<and>
   step treeCONFIG rand (Click startTime now) earlyClickExample = earlyClickExample"
  by (simp add: earlyClickExample_def run_def clickHandler_def growTree_def animateGrowth_def
      buildStore_def initialEngine_def phaseOf_def growthFrame_def
      exampleParticle_def hiddenParticle_def Let_def)

lemma stoppedAt_step:
  assumes "stoppedAt os st"
  shows "stoppedAt os (step cfg rand e st)"
proof (cases e)
  case (Click t0 t1)
  then show ?thesis using assms by (simp add: clickHandler_def stoppedAt_def)
next
  case (GrowthFrame now)
  have "growthFrame cfg now st = st" using assms by (simp add: growthFrame_def stoppedAt_def)
  then show ?thesis using assms GrowthFrame by simp
next
  case AnimFrame
  from assms obtain sys where sys: "particleSystem st = Some sys" "opacityArray sys = os"
    and ok: "storeOk st" and ops: "map currentOpacity (particles st) = os"
    by (auto simp: stoppedAt_def)
  have p: "particles st \<noteq> []" "length (positionArray sys) = 3 * length (particles st)"
    using ok sys by (simp_all add: storeOk_def)
  from animate_cases [OF sys(1) p, of cfg rand] obtain pos' where
    r: "particleSystem (animate cfg rand st) = Some (sys\<lparr>positionArray := pos'\<rparr>)"
      "length (particles (animate cfg rand st)) = length (particles st)"
      "\<forall>i<length (particles st). sameBaseline (particles (animate cfg rand st) ! i) (particles st ! i)"
    by blast
  have "map currentOpacity (particles (animate cfg rand st)) = map currentOpacity (particles st)"
    using r(2,3) by (auto intro!: nth_equalityI simp: sameBaseline_def)
  then show ?thesis
    using assms AnimFrame r(1) sys storeOk_animate [OF ok, of cfg rand]
    by (simp add: stoppedAt_def animate_fields)
next
  case (MouseMove cx cy)
  then show ?thesis
    using assms storeOk_step [of st cfg rand e] by (auto simp: stoppedAt_def mouseMove_def)
next
  case (Build ps)
  then show ?thesis using assms by (auto simp: stoppedAt_def)
qed

lemma stoppedAt_run: "stoppedAt os st \<Longrightarrow> stoppedAt os (run cfg rand es st)"
  unfolding run_def by (induction es arbitrary: st) (simp_all add: stoppedAt_step)

lemma earlyClick_stopped: "stoppedAt [1, 0] earlyClickExample"
proof -
  have "storeOk earlyClickExample"
    unfolding earlyClickExample_def by (rule storeOk_run [OF storeOk_initial])
  then show ?thesis
    unfolding stoppedAt_def
    by (simp add: earlyClickExample_def run_def clickHandler_def growTree_def animateGrowth_def
      buildStore_def initialEngine_def exampleParticle_def hiddenParticle_def Let_def)
qed

text \<open>
  Claim C6 fails on the code when the trigger comes before the image has arrived.
  \<open>init\<close> installs the click handler before it awaits the image (lines 1005 and 1014), so
  the click can find no store: \<open>growTree\<close> sets \<open>isGrown\<close>, and \<open>animateGrowth\<close> returns
  at its guard (line 737) before it asks for a frame.  The store built afterwards has its
  hidden particle at opacity 0, and whatever happens then, for however long (frames,
  clicks, mouse moves), nothing raises it: \<open>isGrown\<close> is set and no growth callback is
  pending, so the state is GROWN, while the particle and its entry of the opacity buffer
  stay at 0.
\<close>

theorem growth_stalls_after_early_click:
  "let st = run treeCONFIG rand es earlyClickExample
   in phaseOf st = GROWN \<and> isGrown st \<and> growthCallbacks st = [] \<and>
      map currentOpacity (particles st) = [1, 0] \<and>
      (\<exists>sys. particleSystem st = Some sys \<and> opacityArray sys = [1, 0])"
  using stoppedAt_run [OF earlyClick_stopped, of treeCONFIG rand es]
  by (simp add: Let_def stoppedAt_def phaseOf_def)

theorem growth_stalls_after_early_click_witness:
  "isGrown (run treeCONFIG zeroDraws
      [Click 0 0, Build [exampleParticle, hiddenParticle], AnimFrame, Click 1000 1000,
       GrowthFrame 10000, AnimFrame, GrowthFrame 20000] (initialEngine 0 200)) \<and>
   growthCallbacks (run treeCONFIG zeroDraws
      [Click 0 0, Build [exampleParticle, hiddenParticle], AnimFrame, Click 1000 1000,
       GrowthFrame 10000, AnimFrame, GrowthFrame 20000] (initialEngine 0 200)) = [] \<and>
   currentOpacity (particles (run treeCONFIG zeroDraws
      [Click 0 0, Build [exampleParticle, hiddenParticle], AnimFrame, Click 1000 1000,
       GrowthFrame 10000, AnimFrame, GrowthFrame 20000] (initialEngine 0 200)) ! 1) = 0 \<and>
   opacityArray (the (particleSystem (run treeCONFIG zeroDraws
      [Click 0 0, Build [exampleParticle, hiddenParticle], AnimFrame, Click 1000 1000,
       GrowthFrame 10000, AnimFrame, GrowthFrame 20000] (initialEngine 0 200)))) ! 1 = 0"
proof -
  let ?es = "[AnimFrame, Click 1000 1000, GrowthFrame 10000, AnimFrame, GrowthFrame 20000]"
  let ?st = "run treeCONFIG zeroDraws ?es earlyClickExample"
  have e: "run treeCONFIG zeroDraws
      [Click 0 0, Build [exampleParticle, hiddenParticle], AnimFrame, Click 1000 1000,
       GrowthFrame 10000, AnimFrame, GrowthFrame 20000] (initialEngine 0 200) = ?st"
    by (simp only: run_def earlyClickExample_def fold_simps o_apply)
  from growth_stalls_after_early_click [of zeroDraws ?es]
  have g: "isGrown ?st" "growthCallbacks ?st = []"
    "map currentOpacity (particles ?st) = [1, 0]"
    "\<exists>sys. particleSystem ?st = Some sys \<and> opacityArray sys = [1, 0]"
    by (simp_all add: Let_def)
  have "length (map currentOpacity (particles ?st)) = 2" unfolding g(3) by simp
  then have "1 < length (particles ?st)" by simp
  then have "currentOpacity (particles ?st ! 1) = map currentOpacity (particles ?st) ! 1"
    by (simp only: nth_map)
  then have o: "currentOpacity (particles ?st ! 1) = 0" unfolding g(3) by simp
  from g(4) have b: "opacityArray (the (particleSystem ?st)) ! 1 = 0" by auto
  show ?thesis unfolding e using g(1,2) o b by blast
qed
















end
